theory Spec2Isabelle
  imports Main
begin

section \<open>Python strings\<close>

text \<open>
  A Python \<open>str\<close> is a sequence of Unicode code points; the scraper's tests on
  strings (\<open>in\<close>, \<open>strip\<close>, \<open>zfill\<close>, the regular expressions) all work on
  code points, so a string is modelled as the list of its code points. The ASCII
  literals of the source are written \<open>asc ''...''\<close>; the Japanese literals are
  given by their code points.
\<close>

type_synonym ustr = "nat list"

definition asc :: "string \<Rightarrow> ustr" where
  "asc s = map of_char s"

text \<open>\<open>needle in haystack\<close> for strings: \<open>needle\<close> occurs as a contiguous run.\<close>

fun starts_with :: "ustr \<Rightarrow> ustr \<Rightarrow> bool" where
  "starts_with [] s = True"
| "starts_with (p # ps) [] = False"
| "starts_with (p # ps) (c # cs) = (p = c \<and> starts_with ps cs)"

fun contains :: "ustr \<Rightarrow> ustr \<Rightarrow> bool" where
  "contains needle [] = (needle = [])"
| "contains needle (c # cs) = (starts_with needle (c # cs) \<or> contains needle cs)"

text \<open>
  \<open>str.isspace()\<close>: the code points Python treats as whitespace, which
  \<open>str.strip()\<close> removes from both ends.
\<close>

definition is_space :: "nat \<Rightarrow> bool" where
  "is_space c \<longleftrightarrow>
     (9 \<le> c \<and> c \<le> 13) \<or> (28 \<le> c \<and> c \<le> 32) \<or> c = 133 \<or> c = 160 \<or> c = 5760 \<or>
     (8192 \<le> c \<and> c \<le> 8202) \<or> c = 8232 \<or> c = 8233 \<or> c = 8239 \<or> c = 8287 \<or>
     c = 12288"

definition strip :: "ustr \<Rightarrow> ustr" where
  "strip s = rev (dropWhile is_space (rev (dropWhile is_space s)))"

text \<open>
  \<open>str.zfill(width)\<close>: pads with ASCII zeros on the left up to \<open>width\<close>; a
  leading sign stays in front of the zeros.
\<close>

definition zfill :: "nat \<Rightarrow> ustr \<Rightarrow> ustr" where
  "zfill width s =
     (if width \<le> length s then s
      else (case s of
              c # cs \<Rightarrow>
                if c = 43 \<or> c = 45 then c # replicate (width - length s) 48 @ cs
                else replicate (width - length s) 48 @ s
            | [] \<Rightarrow> replicate width 48))"

section \<open>Exceptions and the platform\<close>

text \<open>
  Every exception the scraper can meet is caught by an \<open>except Exception\<close> clause or
  ends the run, so the model only records which kind was raised.
\<close>

datatype exn = ValueError | IndexError | PlaywrightError

text \<open>
  The scraper calls \<open>urllib.parse\<close>, \<open>re\<close> and \<open>str\<close> methods of the Python
  standard library. Their table-driven parts are not part of the repository and
  are taken as parameters:
  \<^item> \<open>bracketed_host_ok\<close>: whether a bracketed host of a URL passes
    \<open>_check_bracketed_host\<close> (an IPv6 or IPvFuture literal);
  \<^item> \<open>nfkc_netloc_ok\<close>: whether a non-ASCII network location passes
    \<open>_checknetloc\<close> (NFKC normalisation);
  \<^item> \<open>pct_decode\<close>: \<open>unquote\<close> on a string that contains a percent sign;
  \<^item> \<open>nd_nonascii\<close>: the non-ASCII code points the pattern \<open>\d\<close> matches
    (Unicode category Nd);
  \<^item> \<open>isdigit_nonascii\<close>: the non-ASCII code points with \<open>str.isdigit()\<close>.
\<close>

record platform =
  bracketed_host_ok :: "ustr \<Rightarrow> bool"
  nfkc_netloc_ok :: "ustr \<Rightarrow> bool"
  pct_decode :: "ustr \<Rightarrow> ustr"
  nd_nonascii :: "nat \<Rightarrow> bool"
  isdigit_nonascii :: "nat \<Rightarrow> bool"

definition ascii_digit :: "nat \<Rightarrow> bool" where
  "ascii_digit c \<longleftrightarrow> 48 \<le> c \<and> c \<le> 57"

definition re_digit :: "platform \<Rightarrow> nat \<Rightarrow> bool" where
  "re_digit P c \<longleftrightarrow> ascii_digit c \<or> (128 \<le> c \<and> nd_nonascii P c)"

definition isdigit :: "platform \<Rightarrow> nat \<Rightarrow> bool" where
  "isdigit P c \<longleftrightarrow> ascii_digit c \<or> (128 \<le> c \<and> isdigit_nonascii P c)"

text \<open>
  A platform whose tables are empty beyond ASCII. It serves the concrete runs below,
  all on inputs where the tables are not consulted.
\<close>

definition ascii_platform :: platform where
  "ascii_platform =
     \<lparr>bracketed_host_ok = (\<lambda>h. True), nfkc_netloc_ok = (\<lambda>n. True),
      pct_decode = (\<lambda>s. s), nd_nonascii = (\<lambda>c. False),
      isdigit_nonascii = (\<lambda>c. False)\<rparr>"

section \<open>urllib.parse, as the scraper uses it\<close>

text \<open>
  \<open>urlparse(url)\<close> after CPython 3.11's \<open>urlsplit\<close>: leading C0 controls and
  spaces are stripped, tabs and line breaks removed, a scheme is split off, a network
  location follows a leading \<open>//\<close> up to the first of \<open>/ ? #\<close>, the fragment
  starts at the first \<open>#\<close> and the query at the first \<open>?\<close> before it. It raises
  \<open>ValueError\<close> on unbalanced brackets in the network location, on a bad bracketed
  host and on a network location that fails the NFKC check. Only the network
  location and the query are kept: the scraper reads nothing else.
\<close>

record parse_result =
  netloc :: ustr
  query :: ustr

definition scheme_char :: "nat \<Rightarrow> bool" where
  "scheme_char c \<longleftrightarrow>
     (97 \<le> c \<and> c \<le> 122) \<or> (65 \<le> c \<and> c \<le> 90) \<or> (48 \<le> c \<and> c \<le> 57) \<or>
     c = 43 \<or> c = 45 \<or> c = 46"

definition ascii_alpha :: "nat \<Rightarrow> bool" where
  "ascii_alpha c \<longleftrightarrow> (97 \<le> c \<and> c \<le> 122) \<or> (65 \<le> c \<and> c \<le> 90)"

definition drop_scheme :: "ustr \<Rightarrow> ustr" where
  "drop_scheme url =
     (let i = length (takeWhile (\<lambda>c. c \<noteq> 58) url) in
      if 58 \<in> set url \<and> 0 < i \<and> ascii_alpha (hd url) \<and> list_all scheme_char (take i url)
      then drop (i + 1) url else url)"

definition netloc_delim :: "nat \<Rightarrow> bool" where
  "netloc_delim c \<longleftrightarrow> c = 47 \<or> c = 63 \<or> c = 35"

definition after_first :: "nat \<Rightarrow> ustr \<Rightarrow> ustr" where
  "after_first d s = drop 1 (dropWhile (\<lambda>c. c \<noteq> d) s)"

definition urlparse :: "platform \<Rightarrow> ustr \<Rightarrow> exn + parse_result" where
  "urlparse P url0 =
     (let url1 = filter (\<lambda>c. c \<noteq> 9 \<and> c \<noteq> 13 \<and> c \<noteq> 10) (dropWhile (\<lambda>c. c \<le> 32) url0);
          url2 = drop_scheme url1;
          has_netloc = (take 2 url2 = [47, 47]);
          nl = (if has_netloc then takeWhile (\<lambda>c. \<not> netloc_delim c) (drop 2 url2) else []);
          url3 = (if has_netloc then dropWhile (\<lambda>c. \<not> netloc_delim c) (drop 2 url2) else url2);
          url4 = takeWhile (\<lambda>c. c \<noteq> 35) url3;
          q = (if 63 \<in> set url4 then after_first 63 url4 else [])
      in if (91 \<in> set nl \<and> 93 \<notin> set nl) \<or> (93 \<in> set nl \<and> 91 \<notin> set nl) then Inl ValueError
         else if 91 \<in> set nl \<and> 93 \<in> set nl \<and>
                 \<not> bracketed_host_ok P (takeWhile (\<lambda>c. c \<noteq> 93) (after_first 91 nl))
           then Inl ValueError
         else if nl \<noteq> [] \<and> \<not> list_all (\<lambda>c. c < 128) nl \<and> \<not> nfkc_netloc_ok P nl
           then Inl ValueError
         else Inr \<lparr>netloc = nl, query = q\<rparr>)"

text \<open>\<open>s.split(sep)\<close> for a one-character separator.\<close>

fun split_on :: "nat \<Rightarrow> ustr \<Rightarrow> ustr list" where
  "split_on sep [] = [[]]"
| "split_on sep (c # cs) =
     (if c = sep then [] # split_on sep cs
      else (case split_on sep cs of
              w # ws \<Rightarrow> (c # w) # ws
            | [] \<Rightarrow> [[c]]))"

definition unquote_plus :: "platform \<Rightarrow> ustr \<Rightarrow> ustr" where
  "unquote_plus P s =
     (let t = map (\<lambda>c. if c = 43 then 32 else c) s in
      if 37 \<notin> set t then t else pct_decode P t)"

text \<open>
  \<open>parse_qsl(qs)\<close> with its default arguments: the fields between \<open>&\<close>, each cut
  at its first \<open>=\<close>; an empty field and a field with a blank value are dropped.
\<close>

definition parse_field :: "platform \<Rightarrow> ustr \<Rightarrow> (ustr \<times> ustr) list" where
  "parse_field P name_value =
     (let name = takeWhile (\<lambda>c. c \<noteq> 61) name_value;
          val = after_first 61 name_value
      in if name_value \<noteq> [] \<and> val \<noteq> [] then [(unquote_plus P name, unquote_plus P val)]
         else [])"

definition parse_qsl :: "platform \<Rightarrow> ustr \<Rightarrow> (ustr \<times> ustr) list" where
  "parse_qsl P qs = (if qs = [] then [] else concat (map (parse_field P) (split_on 38 qs)))"

text \<open>\<open>parse_qs\<close> collects the values of each name, in order, in a dictionary.\<close>

definition add_pair :: "(ustr \<rightharpoonup> ustr list) \<Rightarrow> ustr \<times> ustr \<Rightarrow> (ustr \<rightharpoonup> ustr list)" where
  "add_pair d nv =
     (case d (fst nv) of
        Some vs \<Rightarrow> d(fst nv \<mapsto> vs @ [snd nv])
      | None \<Rightarrow> d(fst nv \<mapsto> [snd nv]))"

definition parse_qs :: "platform \<Rightarrow> ustr \<Rightarrow> (ustr \<rightharpoonup> ustr list)" where
  "parse_qs P qs = foldl add_pair Map.empty (parse_qsl P qs)"

section \<open>The URL functions of the scraper\<close>

text \<open>
  \<open>extract_race_id\<close>: the first value of the query parameter \<open>race_id\<close>, with the
  default list \<open>['']\<close> when the parameter is missing; any exception of the body
  (the \<open>ValueError\<close> of \<open>urlparse\<close>, the \<open>IndexError\<close> of \<open>[0]\<close>) gives
  \<open>"unknown"\<close>.
\<close>

definition extract_race_id :: "platform \<Rightarrow> ustr \<Rightarrow> ustr" where
  "extract_race_id P url =
     (case urlparse P url of
        Inl e \<Rightarrow> asc ''unknown''
      | Inr parsed_url \<Rightarrow>
          (case (case parse_qs P (query parsed_url) (asc ''race_id'') of
                   Some vs \<Rightarrow> vs
                 | None \<Rightarrow> [[]]) of
             race_id # _ \<Rightarrow> race_id
           | [] \<Rightarrow> asc ''unknown''))"

definition detect_race_type :: "ustr \<Rightarrow> string" where
  "detect_race_type url =
     (if contains (asc ''nar.netkeiba.com'') url then ''nar''
      else if contains (asc ''race.netkeiba.com'') url then ''jra''
      else ''unknown'')"

section \<open>The rendered page\<close>

text \<open>
  The browser is an external collaborator. An element handle is modelled by what the
  scraper can ask of it: its \<open>inner_text()\<close>, and \<open>query_selector\<close> and
  \<open>query_selector_all\<close> for a selector string; each call returns or raises. The
  page is a snapshot: the same call gives the same answer every time.
\<close>

datatype element = Element
  (inner_text: "exn + ustr")
  (query_selector: "string \<Rightarrow> exn + element option")
  (query_selector_all: "string \<Rightarrow> exn + element list")

text \<open>
  The browser session of one run: \<open>playwright_start\<close> is the outcome of entering
  \<open>async_playwright()\<close>, \<open>browser_launch\<close> of launching the browser and opening
  the page, \<open>goto\<close> of setting the timeout and navigating to the URL,
  \<open>wait_for_selector\<close> of waiting for a selector within its timeout,
  \<open>browser_close\<close> of \<open>browser.close()\<close> and \<open>playwright_stop\<close> of leaving
  \<open>async_playwright()\<close>.
\<close>

record page =
  playwright_start :: "exn + unit"
  browser_launch :: "exn + unit"
  goto :: "exn + unit"
  browser_close :: "exn + unit"
  playwright_stop :: "exn + unit"
  wait_for_selector :: "string \<Rightarrow> exn + unit"
  page_query_selector :: "string \<Rightarrow> exn + element option"
  page_query_selector_all :: "string \<Rightarrow> exn + element list"

text \<open>
  A guarded block (\<open>try: ... except Exception\<close>) that builds a dictionary step by
  step ends with the dictionary as it stands and the exception that stopped it, if
  any. \<open>then_do\<close> runs the next statement unless an exception was raised.
\<close>

definition then_do :: "'s \<times> exn option \<Rightarrow> ('s \<Rightarrow> 's \<times> exn option) \<Rightarrow> 's \<times> exn option" where
  "then_do r f = (case snd r of None \<Rightarrow> f (fst r) | Some e \<Rightarrow> r)"

definition bind_exn :: "exn + 'a \<Rightarrow> ('a \<Rightarrow> exn + 'b) \<Rightarrow> exn + 'b" where
  "bind_exn r f = (case r of Inl e \<Rightarrow> Inl e | Inr v \<Rightarrow> f v)"

text \<open>A loop that reads the \<open>inner_text()\<close> of every element of a list, in order.\<close>

fun inner_texts :: "element list \<Rightarrow> exn + ustr list" where
  "inner_texts [] = Inr []"
| "inner_texts (el # els) =
     (case inner_text el of
        Inl e \<Rightarrow> Inl e
      | Inr t \<Rightarrow> (case inner_texts els of Inl e \<Rightarrow> Inl e | Inr ts \<Rightarrow> Inr (t # ts)))"

section \<open>extract_race_info\<close>

type_synonym info = "string \<rightharpoonup> ustr"

text \<open>The four track conditions: U+826F, U+7A0D U+91CD, U+91CD, U+4E0D U+826F.\<close>

definition track_conditions :: "ustr list" where
  "track_conditions = [[33391], [31245, 37325], [37325], [19981, 33391]]"

text \<open>
  The class names: U+65B0 U+99AC, U+672A U+52DD U+5229, 1/2/3 followed by
  U+52DD U+30AF U+30E9 U+30B9, U+30AA U+30FC U+30D7 U+30F3, G3, G2, G1.
\<close>

definition race_classes :: "ustr list" where
  "race_classes =
     [[26032, 39340], [26410, 21213, 21033], [49, 21213, 12463, 12521, 12473],
      [50, 21213, 12463, 12521, 12473], [51, 21213, 12463, 12521, 12473],
      [12458, 12540, 12503, 12531], asc ''G3'', asc ''G2'', asc ''G1'']"

text \<open>
  The distance test: the text has an \<open>m\<close> and one of the surface marks U+30C0 (dirt)
  and U+829D (turf).
\<close>

definition is_distance :: "ustr \<Rightarrow> bool" where
  "is_distance text \<longleftrightarrow> 109 \<in> set text \<and> (12480 \<in> set text \<or> 33437 \<in> set text)"

definition is_track_condition :: "ustr \<Rightarrow> bool" where
  "is_track_condition text \<longleftrightarrow> text \<in> set track_conditions"

text \<open>The class test; U+30B5 U+30E9 U+7CFB is the breed mark.\<close>

definition is_race_class :: "platform \<Rightarrow> ustr \<Rightarrow> bool" where
  "is_race_class P text \<longleftrightarrow>
     (65 \<in> set text \<and> list_ex (isdigit P) text) \<or> contains [12469, 12521, 31995] text \<or>
     text \<in> set race_classes"

definition step_race_name :: "page \<Rightarrow> string \<Rightarrow> info \<Rightarrow> info \<times> exn option" where
  "step_race_name pg race_type race_info =
     (let race_title_selector = (if race_type = ''nar'' then ''.RaceName'' else ''.RaceName'') in
      case page_query_selector pg race_title_selector of
        Inl e \<Rightarrow> (race_info, Some e)
      | Inr None \<Rightarrow> (race_info, None)
      | Inr (Some race_title_elem) \<Rightarrow>
          (case inner_text race_title_elem of
             Inl e \<Rightarrow> (race_info, Some e)
           | Inr t \<Rightarrow> (race_info(''race_name'' \<mapsto> strip t), None)))"

fun scan_race_data01 :: "element list \<Rightarrow> info \<Rightarrow> info \<times> exn option" where
  "scan_race_data01 [] race_info = (race_info, None)"
| "scan_race_data01 (item # items) race_info =
     (case inner_text item of
        Inl e \<Rightarrow> (race_info, Some e)
      | Inr t \<Rightarrow>
          scan_race_data01 items
            (if is_distance (strip t) then race_info(''distance'' \<mapsto> strip t)
             else if is_track_condition (strip t) then race_info(''track_condition'' \<mapsto> strip t)
             else race_info))"

definition step_race_data01 :: "page \<Rightarrow> info \<Rightarrow> info \<times> exn option" where
  "step_race_data01 pg race_info =
     (case page_query_selector_all pg ''.RaceData01 span'' of
        Inl e \<Rightarrow> (race_info, Some e)
      | Inr race_data_items \<Rightarrow> scan_race_data01 race_data_items race_info)"

fun scan_race_data02 :: "platform \<Rightarrow> element list \<Rightarrow> info \<Rightarrow> info \<times> exn option" where
  "scan_race_data02 P [] race_info = (race_info, None)"
| "scan_race_data02 P (item # items) race_info =
     (case inner_text item of
        Inl e \<Rightarrow> (race_info, Some e)
      | Inr t \<Rightarrow>
          scan_race_data02 P items
            (if is_race_class P (strip t) then race_info(''race_class'' \<mapsto> strip t)
             else race_info))"

definition step_race_data02 :: "platform \<Rightarrow> page \<Rightarrow> info \<Rightarrow> info \<times> exn option" where
  "step_race_data02 P pg race_info =
     (case page_query_selector_all pg ''.RaceData02 span'' of
        Inl e \<Rightarrow> (race_info, Some e)
      | Inr race_data2_items \<Rightarrow> scan_race_data02 P race_data2_items race_info)"

text \<open>
  \<open>re.search(r'(\d+)R?', text)\<close>: the match starts at the first digit and its
  group is the whole run of digits from there.
\<close>

definition race_num_search :: "platform \<Rightarrow> ustr \<Rightarrow> ustr option" where
  "race_num_search P text =
     (let r = dropWhile (\<lambda>c. \<not> re_digit P c) text in
      if r = [] then None else Some (takeWhile (re_digit P) r))"

definition step_race_number :: "platform \<Rightarrow> page \<Rightarrow> info \<Rightarrow> info \<times> exn option" where
  "step_race_number P pg race_info =
     (case page_query_selector pg ''.RaceNum'' of
        Inl e \<Rightarrow> (race_info, Some e)
      | Inr None \<Rightarrow> (race_info, None)
      | Inr (Some race_num_elem) \<Rightarrow>
          (case inner_text race_num_elem of
             Inl e \<Rightarrow> (race_info, Some e)
           | Inr t \<Rightarrow>
               (case race_num_search P (strip t) of
                  Some g \<Rightarrow> (race_info(''race_number'' \<mapsto> g), None)
                | None \<Rightarrow> (race_info, None))))"

text \<open>
  The date pattern \<open>(\d{4})\<close> U+5E74 \<open>(\d{1,2})\<close> U+6708 \<open>(\d{1,2})\<close> U+65E5.
  \<open>digits12\<close> is the greedy group \<open>(\d{1,2})\<close> followed by the rest of the pattern
  \<open>k\<close>: two digits are tried first, one digit when the rest does not match after two.
  \<open>date_at\<close> matches the pattern at the start of a string, \<open>date_search\<close> is
  \<open>re.search\<close>: the match at the leftmost position that has one.
\<close>

definition digits12 :: "platform \<Rightarrow> ustr \<Rightarrow> (ustr \<Rightarrow> 'a option) \<Rightarrow> (ustr \<times> 'a) option" where
  "digits12 P s k =
     (case (if 2 \<le> length s \<and> list_all (re_digit P) (take 2 s) then k (drop 2 s) else None) of
        Some r \<Rightarrow> Some (take 2 s, r)
      | None \<Rightarrow>
          (if 1 \<le> length s \<and> list_all (re_digit P) (take 1 s)
           then (case k (drop 1 s) of Some r \<Rightarrow> Some (take 1 s, r) | None \<Rightarrow> None)
           else None))"

text \<open>What a group \<open>(\d{1,2})\<close> can hold: one or two digits.\<close>

definition digit_run :: "platform \<Rightarrow> ustr \<Rightarrow> bool" where
  "digit_run P ds \<longleftrightarrow> (length ds = 1 \<or> length ds = 2) \<and> list_all (re_digit P) ds"

definition day_at :: "platform \<Rightarrow> ustr \<Rightarrow> (ustr \<times> unit) option" where
  "day_at P s = digits12 P s (\<lambda>rest. if starts_with [26085] rest then Some () else None)"

definition month_day_at :: "platform \<Rightarrow> ustr \<Rightarrow> (ustr \<times> ustr \<times> unit) option" where
  "month_day_at P s =
     digits12 P s (\<lambda>rest. if starts_with [26376] rest then day_at P (drop 1 rest) else None)"

definition date_at :: "platform \<Rightarrow> ustr \<Rightarrow> (ustr \<times> ustr \<times> ustr) option" where
  "date_at P s =
     (if 4 \<le> length s \<and> list_all (re_digit P) (take 4 s) \<and> starts_with [24180] (drop 4 s)
      then (case month_day_at P (drop 5 s) of
              Some (month, day, u) \<Rightarrow> Some (take 4 s, month, day)
            | None \<Rightarrow> None)
      else None)"

fun date_search :: "platform \<Rightarrow> ustr \<Rightarrow> (ustr \<times> ustr \<times> ustr) option" where
  "date_search P [] = date_at P []"
| "date_search P (c # cs) =
     (case date_at P (c # cs) of
        Some groups \<Rightarrow> Some groups
      | None \<Rightarrow> date_search P cs)"

definition format_date :: "ustr \<times> ustr \<times> ustr \<Rightarrow> ustr" where
  "format_date g =
     (case g of (year, month, day) \<Rightarrow> year @ [47] @ zfill 2 month @ [47] @ zfill 2 day)"

definition step_race_date :: "platform \<Rightarrow> page \<Rightarrow> info \<Rightarrow> info \<times> exn option" where
  "step_race_date P pg race_info =
     (case page_query_selector pg ''title'' of
        Inl e \<Rightarrow> (race_info, Some e)
      | Inr None \<Rightarrow> (race_info, None)
      | Inr (Some title_elem) \<Rightarrow>
          (case inner_text title_elem of
             Inl e \<Rightarrow> (race_info, Some e)
           | Inr t \<Rightarrow>
               (case date_search P (strip t) of
                  Some g \<Rightarrow> (race_info(''race_date'' \<mapsto> format_date g), None)
                | None \<Rightarrow> (race_info, None))))"

text \<open>
  The fallback: without a race name, or with an empty one, the page title is kept.
\<close>

definition step_page_title :: "page \<Rightarrow> info \<Rightarrow> info \<times> exn option" where
  "step_page_title pg race_info =
     (if race_info ''race_name'' = None \<or> race_info ''race_name'' = Some []
      then (case page_query_selector pg ''title'' of
              Inl e \<Rightarrow> (race_info, Some e)
            | Inr None \<Rightarrow> (race_info, None)
            | Inr (Some title_elem) \<Rightarrow>
                (case inner_text title_elem of
                   Inl e \<Rightarrow> (race_info, Some e)
                 | Inr t \<Rightarrow> (race_info(''page_title'' \<mapsto> strip t), None)))
      else (race_info, None))"

text \<open>
  The body of the \<open>try\<close> of \<open>extract_race_info\<close>, statement after
  statement: up to the loop over the class spans, up to the race number, and whole.
  Whatever stopped the body, the function returns the dictionary as it stands.
\<close>

definition race_info_upto_class :: "platform \<Rightarrow> page \<Rightarrow> string \<Rightarrow> info \<times> exn option" where
  "race_info_upto_class P pg race_type =
     then_do (then_do
       (step_race_name pg race_type Map.empty)
       (step_race_data01 pg))
       (step_race_data02 P pg)"

definition race_info_upto_number :: "platform \<Rightarrow> page \<Rightarrow> string \<Rightarrow> info \<times> exn option" where
  "race_info_upto_number P pg race_type =
     then_do (race_info_upto_class P pg race_type) (step_race_number P pg)"

definition race_info_block :: "platform \<Rightarrow> page \<Rightarrow> string \<Rightarrow> info \<times> exn option" where
  "race_info_block P pg race_type =
     then_do (then_do
       (race_info_upto_number P pg race_type)
       (step_race_date P pg))
       (step_page_title pg)"

definition extract_race_info :: "platform \<Rightarrow> page \<Rightarrow> string \<Rightarrow> info" where
  "extract_race_info P pg race_type = fst (race_info_block P pg race_type)"

section \<open>extract_horses_data\<close>

type_synonym horse = "string \<rightharpoonup> ustr"

text \<open>
  \<open>el = await cell.query_selector(sel)\<close> followed by
  \<open>await el.inner_text() if el else ""\<close>.
\<close>

definition sub_text :: "element \<Rightarrow> string \<Rightarrow> exn + ustr" where
  "sub_text cell sel =
     (case query_selector cell sel of
        Inl e \<Rightarrow> Inl e
      | Inr None \<Rightarrow> Inr []
      | Inr (Some el) \<Rightarrow> inner_text el)"

text \<open>\<open>cells[i]\<close>, which raises \<open>IndexError\<close> out of range.\<close>

definition cell_at :: "element list \<Rightarrow> nat \<Rightarrow> exn + element" where
  "cell_at cells i = (if i < length cells then Inr (cells ! i) else Inl IndexError)"

definition min_cells :: "string \<Rightarrow> nat" where
  "min_cells race_type = (if race_type = ''nar'' then 12 else 13)"

definition corner_passage_index :: "string \<Rightarrow> nat option" where
  "corner_passage_index race_type = (if race_type = ''nar'' then None else Some 12)"

text \<open>
  The raw corner passage text of a row: read from the \<open>.PassageRate\<close> element of
  the indexed cell when the layout has one (the index is not \<open>None\<close> and not 0, and
  the row is long enough), and the empty string otherwise.
\<close>

definition corner_passage_text :: "element list \<Rightarrow> nat option \<Rightarrow> exn + ustr" where
  "corner_passage_text cells idx =
     (case idx of
        None \<Rightarrow> Inr []
      | Some i \<Rightarrow>
          if i \<noteq> 0 \<and> i < length cells
          then bind_exn (cell_at cells i) (\<lambda>c. sub_text c ''.PassageRate'')
          else Inr [])"

definition horse_data :: "ustr \<Rightarrow> ustr \<Rightarrow> ustr \<Rightarrow> ustr \<Rightarrow> ustr \<Rightarrow> ustr \<Rightarrow> ustr \<Rightarrow> horse" where
  "horse_data rank frame horse_num horse_name time last_3f corner_passage =
     (let d = [''rank'' \<mapsto> strip rank, ''frame'' \<mapsto> strip frame,
               ''horse_number'' \<mapsto> strip horse_num, ''horse_name'' \<mapsto> strip horse_name,
               ''time'' \<mapsto> strip time, ''last_3f'' \<mapsto> strip last_3f]
      in if corner_passage \<noteq> [] then d(''corner_passage'' \<mapsto> strip corner_passage) else d)"

text \<open>The statements of the loop body after the check of the cell count.\<close>

definition row_fields :: "element list \<Rightarrow> nat \<Rightarrow> nat \<Rightarrow> nat option \<Rightarrow> exn + horse" where
  "row_fields cells time_index last_3f_index cp_index =
     bind_exn (bind_exn (cell_at cells 0) (\<lambda>c. sub_text c ''.Rank'')) (\<lambda>rank.
     bind_exn (bind_exn (cell_at cells 1) (\<lambda>c. sub_text c ''div'')) (\<lambda>frame.
     bind_exn (bind_exn (cell_at cells 2) (\<lambda>c. sub_text c ''div'')) (\<lambda>horse_num.
     bind_exn (bind_exn (cell_at cells 3) (\<lambda>c. sub_text c ''.Horse_Name a'')) (\<lambda>horse_name.
     bind_exn (bind_exn (cell_at cells time_index) (\<lambda>c. sub_text c ''.RaceTime'')) (\<lambda>time.
     bind_exn (if last_3f_index < length cells
               then bind_exn (cell_at cells last_3f_index) inner_text else Inr []) (\<lambda>last_3f.
     bind_exn (corner_passage_text cells cp_index) (\<lambda>corner_passage.
     Inr (horse_data rank frame horse_num horse_name time last_3f corner_passage))))))))"

text \<open>
  One turn of the loop over the rows: \<open>Inr None\<close> is \<open>continue\<close> after the check
  of the cell count, \<open>Inl\<close> an exception, which the \<open>except\<close> of the loop body
  catches before the next row.
\<close>

definition extract_row :: "string \<Rightarrow> element \<Rightarrow> exn + horse option" where
  "extract_row race_type row =
     (case query_selector_all row ''td'' of
        Inl e \<Rightarrow> Inl e
      | Inr cells \<Rightarrow>
          if race_type = ''nar''
          then (if length cells < 12 then Inr None
                else map_sum id Some (row_fields cells 7 11 None))
          else (if length cells < 13 then Inr None
                else map_sum id Some (row_fields cells 7 11 (Some 12))))"

fun extract_rows :: "string \<Rightarrow> element list \<Rightarrow> horse list" where
  "extract_rows race_type [] = []"
| "extract_rows race_type (row # rows) =
     (case extract_row race_type row of
        Inr (Some h) \<Rightarrow> h # extract_rows race_type rows
      | Inr None \<Rightarrow> extract_rows race_type rows
      | Inl e \<Rightarrow> extract_rows race_type rows)"

text \<open>
  The rows are queried outside any \<open>try\<close>: an exception of that query leaves the
  function.
\<close>

definition rows_of :: "page \<Rightarrow> string \<Rightarrow> string \<Rightarrow> exn + horse list" where
  "rows_of pg race_type table_rows_selector =
     (case page_query_selector_all pg table_rows_selector of
        Inl e \<Rightarrow> Inl e
      | Inr rows \<Rightarrow> Inr (extract_rows race_type rows))"

definition extract_horses_data :: "page \<Rightarrow> string \<Rightarrow> exn + horse list" where
  "extract_horses_data pg race_type =
     (let table_selector =
            (if race_type = ''nar'' then ''table.RaceTable01.ResultMain''
             else ''table.RaceTable01.RaceCommon_Table'');
          table_rows_selector =
            (if race_type = ''nar'' then ''table.RaceTable01.ResultMain tbody tr''
             else ''table.RaceTable01.RaceCommon_Table tbody tr'')
      in case wait_for_selector pg table_selector of
           Inr u \<Rightarrow> rows_of pg race_type table_rows_selector
         | Inl e \<Rightarrow>
             (if race_type = ''nar''
              then (case wait_for_selector pg ''table.RaceTable01'' of
                      Inr u \<Rightarrow> rows_of pg race_type ''table.RaceTable01 tbody tr''
                    | Inl e' \<Rightarrow> Inr [])
              else (case wait_for_selector pg ''table.RaceCommon_Table'' of
                      Inr u \<Rightarrow> rows_of pg race_type ''table.RaceCommon_Table tbody tr''
                    | Inl e' \<Rightarrow> Inr [])))"

section \<open>extract_corner_data\<close>

text \<open>One turn of the loop over the rows of the corner table.\<close>

definition corner_row :: "element \<Rightarrow> (ustr \<rightharpoonup> ustr) \<Rightarrow> (ustr \<rightharpoonup> ustr) \<times> exn option" where
  "corner_row row corner_data =
     (case query_selector row ''th strong'' of
        Inl e \<Rightarrow> (corner_data, Some e)
      | Inr None \<Rightarrow> (corner_data, None)
      | Inr (Some header) \<Rightarrow>
          (case inner_text header of
             Inl e \<Rightarrow> (corner_data, Some e)
           | Inr corner_num \<Rightarrow>
               (case query_selector row ''td'' of
                  Inl e \<Rightarrow> (corner_data, Some e)
                | Inr None \<Rightarrow> (corner_data, None)
                | Inr (Some order_cell) \<Rightarrow>
                    (case inner_text order_cell of
                       Inl e \<Rightarrow> (corner_data, Some e)
                     | Inr order_text \<Rightarrow>
                         (corner_data(asc ''corner_'' @ corner_num \<mapsto> order_text), None)))))"

fun scan_corner_rows :: "element list \<Rightarrow> (ustr \<rightharpoonup> ustr) \<Rightarrow> (ustr \<rightharpoonup> ustr) \<times> exn option" where
  "scan_corner_rows [] corner_data = (corner_data, None)"
| "scan_corner_rows (row # rows) corner_data =
     then_do (corner_row row corner_data) (scan_corner_rows rows)"

definition corner_block :: "page \<Rightarrow> (ustr \<rightharpoonup> ustr) \<times> exn option" where
  "corner_block pg =
     (case page_query_selector_all pg ''table.Corner_Num tr'' of
        Inl e \<Rightarrow> (Map.empty, Some e)
      | Inr corner_rows \<Rightarrow> scan_corner_rows corner_rows Map.empty)"

definition extract_corner_data :: "page \<Rightarrow> (ustr \<rightharpoonup> ustr)" where
  "extract_corner_data pg = fst (corner_block pg)"

section \<open>extract_lap_times\<close>

type_synonym laps = "string \<rightharpoonup> ustr list"

text \<open>\<open>cells = await row.query_selector_all(sel)\<close> and the loop that reads them.\<close>

definition row_texts :: "element \<Rightarrow> string \<Rightarrow> exn + ustr list" where
  "row_texts row sel = bind_exn (query_selector_all row sel) inner_texts"

text \<open>
  The part of the body under \<open>if len(rows) >= 1\<close>: the distances are read from row
  0 and stored, with the cumulative times, under \<open>if len(rows) >= 2\<close>; the interval
  times are stored under \<open>if len(rows) >= 3\<close>.
\<close>

definition lap_rows :: "element list \<Rightarrow> laps \<Rightarrow> laps \<times> exn option" where
  "lap_rows rows lap_data =
     (if 1 \<le> length rows
      then (case row_texts (rows ! 0) ''th'' of
              Inl e \<Rightarrow> (lap_data, Some e)
            | Inr distances \<Rightarrow>
                then_do
                  (if 2 \<le> length rows
                   then (case row_texts (rows ! 1) ''td'' of
                           Inl e \<Rightarrow> (lap_data, Some e)
                         | Inr cumulative_times \<Rightarrow>
                             (lap_data(''distances'' \<mapsto> distances,
                                       ''cumulative_times'' \<mapsto> cumulative_times), None))
                   else (lap_data, None))
                  (\<lambda>lap_data'.
                     if 3 \<le> length rows
                     then (case row_texts (rows ! 2) ''td'' of
                             Inl e \<Rightarrow> (lap_data', Some e)
                           | Inr interval_times \<Rightarrow>
                               (lap_data'(''interval_times'' \<mapsto> interval_times), None))
                     else (lap_data', None)))
      else (lap_data, None))"

definition lap_block :: "page \<Rightarrow> laps \<times> exn option" where
  "lap_block pg =
     (case page_query_selector pg ''table.Race_HaronTime'' of
        Inl e \<Rightarrow> (Map.empty, Some e)
      | Inr None \<Rightarrow> (Map.empty, None)
      | Inr (Some lap_table) \<Rightarrow>
          (case query_selector_all lap_table ''tbody tr'' of
             Inl e \<Rightarrow> (Map.empty, Some e)
           | Inr rows \<Rightarrow> lap_rows rows Map.empty))"

definition extract_lap_times :: "page \<Rightarrow> laps" where
  "extract_lap_times pg = fst (lap_block pg)"

section \<open>scrape_race_data and main\<close>

record race_record =
  race_url :: ustr
  race_id :: ustr
  race_type :: string
  race_info :: info
  horses :: "horse list"
  corner_passing_order :: "ustr \<rightharpoonup> ustr"
  lap_times :: laps

text \<open>
  A clean-up that runs whatever the outcome \<open>r\<close> of the block before it (a
  \<open>finally\<close> clause, the exit of an \<open>async with\<close>): an exception of the clean-up
  replaces the outcome.
\<close>

definition finally_do :: "exn + unit \<Rightarrow> exn + 'a \<Rightarrow> exn + 'a" where
  "finally_do cleanup r = (case cleanup of Inl e \<Rightarrow> Inl e | Inr u \<Rightarrow> r)"

text \<open>
  The body of the \<open>try\<close> of \<open>scrape_race_data\<close>: an exception of the navigation
  or of \<open>extract_horses_data\<close> leaves it; the other three extractors catch their
  own.
\<close>

definition scrape_body :: "platform \<Rightarrow> page \<Rightarrow> ustr \<Rightarrow> exn + race_record" where
  "scrape_body P pg url =
     (case goto pg of
        Inl e \<Rightarrow> Inl e
      | Inr u \<Rightarrow>
          (case extract_horses_data pg (detect_race_type url) of
             Inl e \<Rightarrow> Inl e
           | Inr horses_data \<Rightarrow>
               Inr \<lparr>race_url = url, race_id = extract_race_id P url,
                    race_type = detect_race_type url,
                    race_info = extract_race_info P pg (detect_race_type url),
                    horses = horses_data,
                    corner_passing_order = extract_corner_data pg,
                    lap_times = extract_lap_times pg\<rparr>))"

text \<open>
  \<open>scrape_race_data\<close>: the browser is launched inside \<open>async with\<close> and before
  the \<open>try\<close>; \<open>finally: await browser.close()\<close> runs after the body, and the
  \<open>async with\<close> is left last.
\<close>

definition scrape_race_data :: "platform \<Rightarrow> page \<Rightarrow> ustr \<Rightarrow> exn + race_record" where
  "scrape_race_data P pg url =
     (case playwright_start pg of
        Inl e \<Rightarrow> Inl e
      | Inr u \<Rightarrow>
          finally_do (playwright_stop pg)
            (case browser_launch pg of
               Inl e \<Rightarrow> Inl e
             | Inr u' \<Rightarrow> finally_do (browser_close pg) (scrape_body P pg url)))"

text \<open>The session starts, navigates and shuts down without an exception.\<close>

definition session_ok :: "page \<Rightarrow> bool" where
  "session_ok pg \<longleftrightarrow>
     playwright_start pg = Inr () \<and> browser_launch pg = Inr () \<and> goto pg = Inr () \<and>
     browser_close pg = Inr () \<and> playwright_stop pg = Inr ()"

text \<open>
  \<open>main\<close>: \<open>argv\<close> is \<open>sys.argv\<close>, \<open>write_file\<close> the file system (creating the
  output directory and writing the JSON file may fail). The run ends with exit code 1
  after the usage message or after any exception, and otherwise with the record
  written to the named file.
\<close>

datatype outcome = Exit1 | Written ustr race_record

definition main :: "platform \<Rightarrow> page \<Rightarrow> (ustr \<Rightarrow> race_record \<Rightarrow> exn + unit) \<Rightarrow> ustr list \<Rightarrow> outcome" where
  "main P pg write_file argv =
     (if length argv < 2 then Exit1
      else (case scrape_race_data P pg (argv ! 1) of
              Inl e \<Rightarrow> Exit1
            | Inr result \<Rightarrow>
                (let output_file = asc ''output/race_data_'' @ race_id result @ asc ''.json'' in
                 case write_file output_file result of
                   Inl e \<Rightarrow> Exit1
                 | Inr u \<Rightarrow> Written output_file result)))"

section \<open>Pages for the concrete runs\<close>

text \<open>
  \<open>leaf t\<close> is an element with inner text \<open>t\<close> and nothing below it, \<open>broken\<close> an
  element whose inner text cannot be read, and \<open>node kids\<close> an element that answers
  the selectors listed in \<open>kids\<close> with the elements given there.
\<close>

definition leaf :: "ustr \<Rightarrow> element" where
  "leaf t = Element (Inr t) (\<lambda>sel. Inr None) (\<lambda>sel. Inr [])"

definition broken :: element where
  "broken = Element (Inl PlaywrightError) (\<lambda>sel. Inr None) (\<lambda>sel. Inr [])"

definition first_of :: "element list \<Rightarrow> element option" where
  "first_of els = (case els of [] \<Rightarrow> None | el # _ \<Rightarrow> Some el)"

definition lookup :: "(string \<times> element list) list \<Rightarrow> string \<Rightarrow> element list" where
  "lookup kids sel = (case map_of kids sel of None \<Rightarrow> [] | Some els \<Rightarrow> els)"

definition node :: "(string \<times> element list) list \<Rightarrow> element" where
  "node kids = Element (Inr []) (\<lambda>sel. Inr (first_of (lookup kids sel))) (\<lambda>sel. Inr (lookup kids sel))"

text \<open>
  \<open>static_page tables kids\<close>: a page of a session without exceptions, on which
  waiting succeeds for the selectors in \<open>tables\<close> only, and whose queries are
  answered from \<open>kids\<close>. \<open>failing_close pg\<close> is \<open>pg\<close> in a session whose
  \<open>browser.close()\<close> raises, and \<open>accepting_fs\<close> a file system that accepts every
  write.
\<close>

definition static_page :: "string list \<Rightarrow> (string \<times> element list) list \<Rightarrow> page" where
  "static_page tables kids =
     \<lparr>playwright_start = Inr (), browser_launch = Inr (), goto = Inr (),
      browser_close = Inr (), playwright_stop = Inr (),
      wait_for_selector = (\<lambda>sel. if sel \<in> set tables then Inr () else Inl PlaywrightError),
      page_query_selector = (\<lambda>sel. Inr (first_of (lookup kids sel))),
      page_query_selector_all = (\<lambda>sel. Inr (lookup kids sel))\<rparr>"

definition failing_close :: "page \<Rightarrow> page" where
  "failing_close pg = pg\<lparr>browser_close := Inl PlaywrightError\<rparr>"

definition accepting_fs :: "ustr \<Rightarrow> race_record \<Rightarrow> exn + unit" where
  "accepting_fs output_file result = Inr ()"

text \<open>
  A results row of the central layout with thirteen cells, the last one holding the
  corner passage text \<open>passage\<close>, and the row element around a list of cells.
\<close>

definition jra_cells :: "ustr \<Rightarrow> element list" where
  "jra_cells passage =
     [node [(''.Rank'', [leaf (asc ''1'')])], node [(''div'', [leaf (asc ''3'')])],
      node [(''div'', [leaf (asc ''5'')])], node [(''.Horse_Name a'', [leaf (asc ''Equinox'')])],
      leaf [], leaf [], leaf [], node [(''.RaceTime'', [leaf (asc ''1:34.5'')])],
      leaf [], leaf [], leaf [], leaf (asc ''34.1 ''),
      node [(''.PassageRate'', [leaf passage])]]"

definition result_row :: "element list \<Rightarrow> element" where
  "result_row cells = node [(''td'', cells)]"

text \<open>
  A page with a race name, the given spans in its two data sections, a race number
  and the given title; it has no tables.
\<close>

definition info_page :: "ustr list \<Rightarrow> ustr list \<Rightarrow> ustr \<Rightarrow> page" where
  "info_page spans01 spans02 title =
     static_page []
       [(''.RaceName'', [leaf (asc ''Kinen'')]), (''.RaceData01 span'', map leaf spans01),
        (''.RaceData02 span'', map leaf spans02), (''.RaceNum'', [leaf (asc ''11R'')]),
        (''title'', [leaf title])]"

text \<open>
  A page with a race name, the given span elements in its first data section and the
  given title.
\<close>

definition span_page :: "element list \<Rightarrow> ustr \<Rightarrow> page" where
  "span_page spans title =
     static_page []
       [(''.RaceName'', [leaf (asc ''Kinen'')]), (''.RaceData01 span'', spans),
        (''title'', [leaf title])]"

text \<open>
  A row of the corner table with its label and its passing order, a row whose cells
  cannot be read, and a page with the given rows in its corner table.
\<close>

definition corner_tr :: "ustr \<Rightarrow> ustr \<Rightarrow> element" where
  "corner_tr num order_text = node [(''th strong'', [leaf num]), (''td'', [leaf order_text])]"

definition broken_tr :: element where
  "broken_tr = node [(''th strong'', [broken]), (''th'', [broken]), (''td'', [broken])]"

definition corner_page :: "element list \<Rightarrow> page" where
  "corner_page rows = static_page [] [(''table.Corner_Num tr'', rows)]"

text \<open>
  A row of the lap table with the texts of its header cells and of its data cells,
  and a page with the given rows in its lap table.
\<close>

definition lap_tr :: "ustr list \<Rightarrow> ustr list \<Rightarrow> element" where
  "lap_tr ths tds = node [(''th'', map leaf ths), (''td'', map leaf tds)]"

definition lap_page :: "element list \<Rightarrow> page" where
  "lap_page rows = static_page [] [(''table.Race_HaronTime'', [node [(''tbody tr'', rows)]])]"

section \<open>Substrings\<close>

lemma starts_with_iff: "starts_with p s \<longleftrightarrow> (\<exists>post. s = p @ post)"
  by (induction p s rule: starts_with.induct) auto

lemma contains_iff: "contains n s \<longleftrightarrow> (\<exists>pre post. s = pre @ n @ post)"
proof (induction s)
  case Nil
  then show ?case by auto
next
  case (Cons c cs)
  show ?case
  proof
    assume "contains n (c # cs)"
    then consider "starts_with n (c # cs)" | "contains n cs" by auto
    then show "\<exists>pre post. c # cs = pre @ n @ post"
    proof cases
      case 1
      then obtain post where "c # cs = n @ post" using starts_with_iff by blast
      then have "c # cs = [] @ n @ post" by simp
      then show ?thesis by blast
    next
      case 2
      then obtain pre post where "cs = pre @ n @ post" using Cons.IH by blast
      then have "c # cs = (c # pre) @ n @ post" by simp
      then show ?thesis by blast
    qed
  next
    assume "\<exists>pre post. c # cs = pre @ n @ post"
    then obtain pre post where e: "c # cs = pre @ n @ post" by blast
    show "contains n (c # cs)"
    proof (cases pre)
      case Nil
      with e have "starts_with n (c # cs)" using starts_with_iff by auto
      then show ?thesis by simp
    next
      case (Cons a pre')
      with e have "cs = pre' @ n @ post" by simp
      then have "contains n cs" using Cons.IH by blast
      then show ?thesis by simp
    qed
  qed
qed

section \<open>The dictionary of parse_qs\<close>

lemma add_pair_apply:
  "add_pair d nv k =
     (if k = fst nv then Some ((case d k of Some vs \<Rightarrow> vs | None \<Rightarrow> []) @ [snd nv]) else d k)"
  by (simp add: add_pair_def split: option.splits)

lemma parse_qs_fold:
  "foldl add_pair d xs k =
     (case (case d k of Some vs \<Rightarrow> vs | None \<Rightarrow> []) @ map snd (filter (\<lambda>nv. fst nv = k) xs) of
        [] \<Rightarrow> d k
      | v # vs \<Rightarrow> Some (v # vs))"
proof (induction xs arbitrary: d)
  case Nil
  then show ?case by (simp split: option.splits list.splits)
next
  case (Cons x xs)
  define d' where "d' = add_pair d x"
  have step: "d' k = (if k = fst x then Some ((case d k of Some vs \<Rightarrow> vs | None \<Rightarrow> []) @ [snd x]) else d k)"
    unfolding d'_def by (rule add_pair_apply)
  have "foldl add_pair d (x # xs) k = foldl add_pair d' xs k"
    by (simp add: d'_def)
  also have "\<dots> = (case (case d' k of Some vs \<Rightarrow> vs | None \<Rightarrow> []) @ map snd (filter (\<lambda>nv. fst nv = k) xs) of
        [] \<Rightarrow> d' k
      | v # vs \<Rightarrow> Some (v # vs))"
    by (rule Cons.IH)
  finally show ?case
    by (simp add: step split: option.splits list.splits)
qed

lemma parse_qs_lookup:
  "parse_qs P qs k =
     (case map snd (filter (\<lambda>nv. fst nv = k) (parse_qsl P qs)) of [] \<Rightarrow> None | v # vs \<Rightarrow> Some (v # vs))"
  by (simp add: parse_qs_def parse_qs_fold)

section \<open>The race id of a URL\<close>

text \<open>
  C1, as the code has it. When \<open>urlparse\<close> raises on the URL, \<open>extract_race_id\<close>
  returns \<open>"unknown"\<close>. When the URL parses and its query has no field named
  \<open>race_id\<close> with a value that is not blank, the result is the empty string, the
  element of the default list \<open>['']\<close>, and not \<open>"unknown"\<close>. When the query has
  such fields, the result is the value of the first of them.
\<close>

theorem extract_race_id_cases:
  "(\<forall>e. urlparse P url = Inl e \<longrightarrow> extract_race_id P url = asc ''unknown'') \<and>
   (\<forall>p. urlparse P url = Inr p \<and> asc ''race_id'' \<notin> fst ` set (parse_qsl P (query p)) \<longrightarrow>
        extract_race_id P url = []) \<and>
   (\<forall>p v vs. urlparse P url = Inr p \<and>
        map snd (filter (\<lambda>nv. fst nv = asc ''race_id'') (parse_qsl P (query p))) = v # vs \<longrightarrow>
        extract_race_id P url = v)"
proof (intro conjI allI impI)
  fix e assume "urlparse P url = Inl e"
  then show "extract_race_id P url = asc ''unknown''" by (simp add: extract_race_id_def)
next
  fix p assume a: "urlparse P url = Inr p \<and> asc ''race_id'' \<notin> fst ` set (parse_qsl P (query p))"
  then have "filter (\<lambda>nv. fst nv = asc ''race_id'') (parse_qsl P (query p)) = []"
    by (force simp: filter_empty_conv)
  with a show "extract_race_id P url = []"
    by (simp add: extract_race_id_def parse_qs_lookup)
next
  fix p v vs
  assume "urlparse P url = Inr p \<and>
        map snd (filter (\<lambda>nv. fst nv = asc ''race_id'') (parse_qsl P (query p))) = v # vs"
  then show "extract_race_id P url = v"
    by (simp add: extract_race_id_def parse_qs_lookup)
qed


theorem extract_race_id_cases_witness:
  "extract_race_id ascii_platform (asc ''http://[nar.netkeiba.com/?race_id=5'') = asc ''unknown'' \<and>
   extract_race_id ascii_platform (asc ''https://nar.netkeiba.com/race/result.html?pid=1'') = [] \<and>
   extract_race_id ascii_platform (asc ''https://race.netkeiba.com/race/result.html?race_id=202405&rf=x'') =
     asc ''202405''"
proof -
  have a: "urlparse ascii_platform (asc ''http://[nar.netkeiba.com/?race_id=5'') = Inl ValueError"
    by code_simp
  have b: "urlparse ascii_platform (asc ''https://nar.netkeiba.com/race/result.html?pid=1'') =
             Inr \<lparr>netloc = asc ''nar.netkeiba.com'', query = asc ''pid=1''\<rparr>"
    by code_simp
  have b': "asc ''race_id'' \<notin> fst ` set (parse_qsl ascii_platform (query \<lparr>netloc = asc ''nar.netkeiba.com'', query = asc ''pid=1''\<rparr>))"
    by code_simp
  have c: "urlparse ascii_platform (asc ''https://race.netkeiba.com/race/result.html?race_id=202405&rf=x'') =
             Inr \<lparr>netloc = asc ''race.netkeiba.com'', query = asc ''race_id=202405&rf=x''\<rparr>"
    by code_simp
  have c': "map snd (filter (\<lambda>nv. fst nv = asc ''race_id'')
              (parse_qsl ascii_platform (query \<lparr>netloc = asc ''race.netkeiba.com'', query = asc ''race_id=202405&rf=x''\<rparr>))) =
            asc ''202405'' # []"
    by code_simp
  have 1: "extract_race_id ascii_platform (asc ''http://[nar.netkeiba.com/?race_id=5'') = asc ''unknown''"
    by (rule extract_race_id_cases [THEN conjunct1, rule_format, OF a])
  have 2: "extract_race_id ascii_platform (asc ''https://nar.netkeiba.com/race/result.html?pid=1'') = []"
    by (rule extract_race_id_cases [THEN conjunct2, THEN conjunct1, rule_format, OF conjI [OF b b']])
  have 3: "extract_race_id ascii_platform (asc ''https://race.netkeiba.com/race/result.html?race_id=202405&rf=x'') =
     asc ''202405''"
    by (rule extract_race_id_cases [THEN conjunct2, THEN conjunct2, rule_format, OF conjI [OF c c']])
  show ?thesis using 1 2 3 by simp
qed

text \<open>
  A URL with no query at all: it parses, its query has no field, and the race id is
  the empty string.
\<close>

theorem extract_race_id_missing_counterexample:
  "urlparse ascii_platform (asc ''https://race.netkeiba.com/race/result.html'') =
     Inr \<lparr>netloc = asc ''race.netkeiba.com'', query = []\<rparr> \<and>
   parse_qsl ascii_platform [] = [] \<and>
   extract_race_id ascii_platform (asc ''https://race.netkeiba.com/race/result.html'') = [] \<and>
   extract_race_id ascii_platform (asc ''https://race.netkeiba.com/race/result.html'') \<noteq> asc ''unknown''"
  by code_simp

section \<open>The layout of a URL\<close>

text \<open>
  C5, as the code has it. \<open>detect_race_type\<close> looks for the markers anywhere in the
  URL string, the local marker first: the result is \<open>nar\<close> exactly when the URL
  contains \<open>nar.netkeiba.com\<close>, \<open>jra\<close> exactly when it contains
  \<open>race.netkeiba.com\<close> and not \<open>nar.netkeiba.com\<close>, and \<open>unknown\<close> exactly when
  it contains neither.
\<close>

theorem detect_race_type_cases:
  "(detect_race_type url = ''nar'' \<longleftrightarrow> (\<exists>pre post. url = pre @ asc ''nar.netkeiba.com'' @ post)) \<and>
   (detect_race_type url = ''jra'' \<longleftrightarrow>
      (\<exists>pre post. url = pre @ asc ''race.netkeiba.com'' @ post) \<and>
      \<not> (\<exists>pre post. url = pre @ asc ''nar.netkeiba.com'' @ post)) \<and>
   (detect_race_type url = ''unknown'' \<longleftrightarrow>
      \<not> (\<exists>pre post. url = pre @ asc ''race.netkeiba.com'' @ post) \<and>
      \<not> (\<exists>pre post. url = pre @ asc ''nar.netkeiba.com'' @ post))"
  unfolding contains_iff [symmetric] by (simp add: detect_race_type_def)

theorem detect_race_type_cases_witness:
  "detect_race_type (asc ''https://nar.netkeiba.com/race/result.html?race_id=1'') = ''nar'' \<and>
   detect_race_type (asc ''https://race.netkeiba.com/race/result.html?race_id=1'') = ''jra'' \<and>
   detect_race_type (asc ''https://db.netkeiba.com/race/1'') = ''unknown''"
proof -
  have a: "contains (asc ''nar.netkeiba.com'') (asc ''https://nar.netkeiba.com/race/result.html?race_id=1'')"
    by code_simp
  have b: "contains (asc ''race.netkeiba.com'') (asc ''https://race.netkeiba.com/race/result.html?race_id=1'')"
    "\<not> contains (asc ''nar.netkeiba.com'') (asc ''https://race.netkeiba.com/race/result.html?race_id=1'')"
    by code_simp+
  have c: "\<not> contains (asc ''race.netkeiba.com'') (asc ''https://db.netkeiba.com/race/1'')"
    "\<not> contains (asc ''nar.netkeiba.com'') (asc ''https://db.netkeiba.com/race/1'')"
    by code_simp+
  show ?thesis
    using detect_race_type_cases [of "asc ''https://nar.netkeiba.com/race/result.html?race_id=1''"]
      detect_race_type_cases [of "asc ''https://race.netkeiba.com/race/result.html?race_id=1''"]
      detect_race_type_cases [of "asc ''https://db.netkeiba.com/race/1''"]
      a b c
    unfolding contains_iff by blast
qed

text \<open>
  A URL whose network location, and so whose host, contains neither marker, while its
  path contains the local one: the result is \<open>nar\<close>.
\<close>

theorem detect_race_type_host_counterexample:
  "urlparse ascii_platform (asc ''https://example.com/nar.netkeiba.com'') =
     Inr \<lparr>netloc = asc ''example.com'', query = []\<rparr> \<and>
   \<not> contains (asc ''nar.netkeiba.com'') (asc ''example.com'') \<and>
   \<not> contains (asc ''race.netkeiba.com'') (asc ''example.com'') \<and>
   detect_race_type (asc ''https://example.com/nar.netkeiba.com'') = ''nar''"
  by code_simp

section \<open>The rows of the results table\<close>

lemmas row_run =
  jra_cells_def result_row_def node_def leaf_def lookup_def first_of_def extract_row_def
  row_fields_def bind_exn_def cell_at_def sub_text_def corner_passage_text_def horse_data_def
  corner_passage_index_def min_cells_def strip_def is_space_def asc_def

lemma bind_exn_Inr: "bind_exn r f = Inr v \<longleftrightarrow> (\<exists>x. r = Inr x \<and> f x = Inr v)"
  by (cases r) (simp_all add: bind_exn_def)

lemma extract_rows_append:
  "extract_rows rt (xs @ ys) = extract_rows rt xs @ extract_rows rt ys"
  by (induction xs) (simp_all split: sum.splits option.splits)

lemma extract_rows_member:
  "h \<in> set (extract_rows rt rows) \<Longrightarrow> \<exists>row \<in> set rows. extract_row rt row = Inr (Some h)"
  by (induction rows) (auto split: sum.splits option.splits)

lemma strip_empty_iff: "strip s = [] \<longleftrightarrow> list_all is_space s"
proof
  assume "list_all is_space s"
  then show "strip s = []"
    by (auto simp: strip_def list_all_iff dest: set_dropWhileD)
next
  assume "strip s = []"
  then have a: "\<forall>x \<in> set (dropWhile is_space s). is_space x"
    by (simp add: strip_def)
  have "dropWhile is_space s = []"
  proof (rule ccontr)
    assume n: "dropWhile is_space s \<noteq> []"
    then have "\<not> is_space (hd (dropWhile is_space s))" by (rule hd_dropWhile)
    moreover have "hd (dropWhile is_space s) \<in> set (dropWhile is_space s)" using n by (rule hd_in_set)
    ultimately show False using a by blast
  qed
  then show "list_all is_space s"
    by (simp add: list_all_iff)
qed

lemma horse_data_corner_passage:
  "horse_data r f n nm t l raw ''corner_passage'' = (if raw = [] then None else Some (strip raw))"
  by (simp add: horse_data_def Let_def)

lemma horse_data_keys:
  "{''rank'', ''frame'', ''horse_number'', ''horse_name'', ''time'', ''last_3f''} \<subseteq> dom (horse_data r f n nm t l raw)"
  by (simp add: horse_data_def Let_def)

lemma row_fields_Inr:
  "row_fields cells ti li cp = Inr h \<Longrightarrow>
     \<exists>r f n nm t l raw. corner_passage_text cells cp = Inr raw \<and> h = horse_data r f n nm t l raw"
  unfolding row_fields_def bind_exn_Inr by blast

lemma extract_row_Some:
  "extract_row rt row = Inr (Some h) \<Longrightarrow>
     \<exists>cells r f n nm t l raw. query_selector_all row ''td'' = Inr cells \<and> min_cells rt \<le> length cells \<and>
        corner_passage_text cells (corner_passage_index rt) = Inr raw \<and> h = horse_data r f n nm t l raw"
proof -
  assume a: "extract_row rt row = Inr (Some h)"
  then obtain cells where c: "query_selector_all row ''td'' = Inr cells"
    by (auto simp: extract_row_def split: sum.splits)
  show ?thesis
  proof (cases "rt = ''nar''")
    case True
    with a c have l: "12 \<le> length cells" and "map_sum id Some (row_fields cells 7 11 None) = Inr (Some h)"
      by (auto simp: extract_row_def split: if_splits)
    then have "row_fields cells 7 11 None = Inr h"
      by (cases "row_fields cells 7 11 None") auto
    from row_fields_Inr [OF this] c l True show ?thesis
      by (auto simp: min_cells_def corner_passage_index_def)
  next
    case False
    with a c have l: "13 \<le> length cells" and "map_sum id Some (row_fields cells 7 11 (Some 12)) = Inr (Some h)"
      by (auto simp: extract_row_def split: if_splits)
    then have "row_fields cells 7 11 (Some 12) = Inr h"
      by (cases "row_fields cells 7 11 (Some 12)") auto
    from row_fields_Inr [OF this] c l False show ?thesis
      by (auto simp: min_cells_def corner_passage_index_def)
  qed
qed


text \<open>
  C6. A row with fewer cells than the minimum of the layout (12 for \<open>nar\<close>, 13
  otherwise) ends its turn of the loop at \<open>continue\<close>: the output is the output of
  the rows around it, and every entry of the output comes from a row with at least the
  minimum of cells and has all six keys.
\<close>

theorem short_row_skipped:
  "query_selector_all row ''td'' = Inr cells \<Longrightarrow> length cells < min_cells rt \<Longrightarrow>
     extract_row rt row = Inr None \<and>
     extract_rows rt (pre @ row # post) = extract_rows rt (pre @ post) \<and>
     (\<forall>h \<in> set (extract_rows rt (pre @ row # post)).
        \<exists>r \<in> set (pre @ post). \<exists>cs. query_selector_all r ''td'' = Inr cs \<and>
          min_cells rt \<le> length cs \<and>
          {''rank'', ''frame'', ''horse_number'', ''horse_name'', ''time'', ''last_3f''} \<subseteq> dom h)"
proof -
  assume c: "query_selector_all row ''td'' = Inr cells" and l: "length cells < min_cells rt"
  then have skip: "extract_row rt row = Inr None"
    by (simp add: extract_row_def min_cells_def split: if_splits)
  then have same: "extract_rows rt (pre @ row # post) = extract_rows rt (pre @ post)"
    by (simp add: extract_rows_append)
  have "\<exists>r \<in> set (pre @ post). \<exists>cs. query_selector_all r ''td'' = Inr cs \<and>
          min_cells rt \<le> length cs \<and>
          {''rank'', ''frame'', ''horse_number'', ''horse_name'', ''time'', ''last_3f''} \<subseteq> dom h"
    if "h \<in> set (extract_rows rt (pre @ row # post))" for h
  proof -
    from that same have "h \<in> set (extract_rows rt (pre @ post))" by simp
    then obtain r where r: "r \<in> set (pre @ post)" "extract_row rt r = Inr (Some h)"
      using extract_rows_member by blast
    from extract_row_Some [OF r(2)] horse_data_keys r(1) show ?thesis by blast
  qed
  with skip same show ?thesis by blast
qed

theorem short_row_skipped_witness:
  "extract_row ''jra'' (result_row (take 12 (jra_cells (asc ''3-3'')))) = Inr None \<and>
   extract_rows ''jra'' ([result_row (jra_cells (asc ''3-3''))] @
       result_row (take 12 (jra_cells (asc ''3-3''))) # [result_row (jra_cells (asc ''1-1''))]) =
     extract_rows ''jra'' ([result_row (jra_cells (asc ''3-3''))] @ [result_row (jra_cells (asc ''1-1''))]) \<and>
   length (extract_rows ''jra'' ([result_row (jra_cells (asc ''3-3''))] @
       result_row (take 12 (jra_cells (asc ''3-3''))) # [result_row (jra_cells (asc ''1-1''))])) = 2"
proof -
  have c: "query_selector_all (result_row (take 12 (jra_cells (asc ''3-3'')))) ''td'' =
             Inr (take 12 (jra_cells (asc ''3-3'')))"
    by (simp add: result_row_def node_def lookup_def)
  have l: "length (take 12 (jra_cells (asc ''3-3''))) < min_cells ''jra''"
    by (simp add: jra_cells_def min_cells_def)
  have n: "length (extract_rows ''jra'' ([result_row (jra_cells (asc ''3-3''))] @
       result_row (take 12 (jra_cells (asc ''3-3''))) # [result_row (jra_cells (asc ''1-1''))])) = 2"
    by (simp add: row_run)
  from short_row_skipped [OF c l, of "[result_row (jra_cells (asc ''3-3''))]" "[result_row (jra_cells (asc ''1-1''))]"] n
  show ?thesis by blast
qed

text \<open>
  The corner passage of one entry: the entry made from a row carries the key
  \<open>corner_passage\<close> exactly when the raw text read from that row is not empty, and
  the value is that text stripped. The guard is applied before the stripping, so the
  value is empty exactly when the raw text is not empty and all whitespace.
\<close>

lemma extract_row_corner_passage:
  assumes "extract_row rt row = Inr (Some h)"
  shows "\<exists>cells raw.
           query_selector_all row ''td'' = Inr cells \<and>
           corner_passage_text cells (corner_passage_index rt) = Inr raw \<and>
           h ''corner_passage'' = (if raw = [] then None else Some (strip raw)) \<and>
           (h ''corner_passage'' = Some [] \<longleftrightarrow> raw \<noteq> [] \<and> list_all is_space raw)"
proof -
  from extract_row_Some [OF assms] obtain cells r' f n nm t l raw where
    c: "query_selector_all row ''td'' = Inr cells"
      "corner_passage_text cells (corner_passage_index rt) = Inr raw"
      "h = horse_data r' f n nm t l raw"
    by blast
  have k: "h ''corner_passage'' = (if raw = [] then None else Some (strip raw))"
    by (simp only: c(3) horse_data_corner_passage)
  then have "h ''corner_passage'' = Some [] \<longleftrightarrow> raw \<noteq> [] \<and> list_all is_space raw"
    by (simp add: strip_empty_iff)
  with c(1,2) k show ?thesis by blast
qed

text \<open>
  C4, at the failing input. A results table of the central layout with one row of
  thirteen cells, whose \<open>.PassageRate\<close> element holds a no-break space (U+00A0) as
  its inner text: the row is read without an exception, the raw corner passage text
  is that one character, the guard \<open>if corner_passage:\<close> lets it pass, and the
  entry carries the key \<open>corner_passage\<close> with the empty string as its value.
\<close>

theorem corner_passage_blank_run:
  "length (extract_rows ''jra'' [result_row (jra_cells [160])]) = 1 \<and>
   extract_row ''jra'' (result_row (jra_cells [160])) =
     Inr (Some (hd (extract_rows ''jra'' [result_row (jra_cells [160])]))) \<and>
   corner_passage_text (jra_cells [160]) (corner_passage_index ''jra'') = Inr [160] \<and>
   hd (extract_rows ''jra'' [result_row (jra_cells [160])]) ''corner_passage'' = Some []"
  by (simp add: row_run)

section \<open>The guarded body of extract_race_info\<close>

lemma then_do_None [simp]: "then_do (s, None) f = f s"
  by (simp add: then_do_def)

lemma then_do_Some [simp]: "then_do (s, Some e) f = (s, Some e)"
  by (simp add: then_do_def)

lemma then_do_key: "(\<And>s. fst (f s) k = s k) \<Longrightarrow> fst (then_do r f) k = fst r k"
  by (cases r; cases "snd r") (simp_all add: then_do_def)

lemma then_do_ok: "snd r = None \<Longrightarrow> then_do r f = f (fst r)"
  by (simp add: then_do_def)

lemma step_race_name_other:
  "k \<noteq> ''race_name'' \<Longrightarrow> fst (step_race_name pg rt ri) k = ri k"
  by (simp add: step_race_name_def split: sum.splits option.splits)

lemma scan_race_data01_other:
  "k \<noteq> ''distance'' \<Longrightarrow> k \<noteq> ''track_condition'' \<Longrightarrow> fst (scan_race_data01 items ri) k = ri k"
  by (induction items arbitrary: ri) (simp_all split: sum.splits)

lemma scan_race_data02_other:
  "k \<noteq> ''race_class'' \<Longrightarrow> fst (scan_race_data02 P items ri) k = ri k"
  by (induction items arbitrary: ri) (simp_all split: sum.splits)

lemma step_race_data02_other:
  "k \<noteq> ''race_class'' \<Longrightarrow> fst (step_race_data02 P pg ri) k = ri k"
  by (simp add: step_race_data02_def scan_race_data02_other split: sum.splits)

lemma step_race_number_other:
  "k \<noteq> ''race_number'' \<Longrightarrow> fst (step_race_number P pg ri) k = ri k"
  by (simp add: step_race_number_def split: sum.splits option.splits)

lemma step_race_date_other:
  "k \<noteq> ''race_date'' \<Longrightarrow> fst (step_race_date P pg ri) k = ri k"
  by (simp add: step_race_date_def split: sum.splits option.splits)

lemma step_page_title_other:
  "k \<noteq> ''page_title'' \<Longrightarrow> fst (step_page_title pg ri) k = ri k"
  by (simp add: step_page_title_def split: sum.splits option.splits)

text \<open>The keys of the two span loops are decided by the first two statements.\<close>

lemma extract_race_info_data01_key:
  assumes "k = ''distance'' \<or> k = ''track_condition''"
  shows "extract_race_info P pg rt k =
           fst (then_do (step_race_name pg rt Map.empty) (step_race_data01 pg)) k"
proof -
  from assms have k: "k \<noteq> ''race_class''" "k \<noteq> ''race_number''" "k \<noteq> ''race_date''" "k \<noteq> ''page_title''"
    by auto
  show ?thesis
    unfolding extract_race_info_def race_info_block_def race_info_upto_number_def
      race_info_upto_class_def
    by (simp add: then_do_key step_page_title_other step_race_date_other step_race_number_other
        step_race_data02_other k)
qed

lemma scan_race_data01_track:
  "fst (scan_race_data01 items ri) ''track_condition'' = Some t \<Longrightarrow>
     ri ''track_condition'' = Some t \<or> t \<in> set track_conditions"
proof (induction items arbitrary: ri)
  case Nil
  then show ?case by simp
next
  case (Cons item items)
  show ?case
  proof (cases "inner_text item")
    case (Inl e)
    with Cons.prems show ?thesis by simp
  next
    case (Inr u)
    define ri' where "ri' =
            (if is_distance (strip u) then ri(''distance'' \<mapsto> strip u)
             else if is_track_condition (strip u) then ri(''track_condition'' \<mapsto> strip u)
             else ri)"
    from Cons.prems Inr have "fst (scan_race_data01 items ri') ''track_condition'' = Some t"
      by (simp add: ri'_def)
    then have "ri' ''track_condition'' = Some t \<or> t \<in> set track_conditions"
      by (rule Cons.IH)
    moreover have "ri' ''track_condition'' = Some t \<Longrightarrow>
        ri ''track_condition'' = Some t \<or> t \<in> set track_conditions"
      unfolding ri'_def is_track_condition_def by (simp split: if_splits)
    ultimately show ?thesis by blast
  qed
qed

lemma scan_race_data01_no_track:
  "\<forall>item \<in> set items. \<forall>t. inner_text item = Inr t \<longrightarrow> strip t \<notin> set track_conditions \<Longrightarrow>
     fst (scan_race_data01 items ri) ''track_condition'' = ri ''track_condition''"
  by (induction items arbitrary: ri) (simp_all add: is_track_condition_def split: sum.splits)

text \<open>
  C7. On every page, whatever raises, a \<open>track_condition\<close> in the result is one of
  the four condition strings of \<open>track_conditions\<close>; and when no span of the first
  data section has one of the four as its stripped text, the key is absent.
\<close>

theorem track_condition_closed_set:
  "(\<forall>t. extract_race_info P pg rt ''track_condition'' = Some t \<longrightarrow> t \<in> set track_conditions) \<and>
   (\<forall>items. page_query_selector_all pg ''.RaceData01 span'' = Inr items \<and>
       (\<forall>item \<in> set items. \<forall>t. inner_text item = Inr t \<longrightarrow> strip t \<notin> set track_conditions) \<longrightarrow>
       extract_race_info P pg rt ''track_condition'' = None)"
proof -
  define r where "r = step_race_name pg rt Map.empty"
  have r0: "fst r ''track_condition'' = None"
    by (simp add: r_def step_race_name_other)
  have e: "extract_race_info P pg rt ''track_condition'' =
             fst (then_do r (step_race_data01 pg)) ''track_condition''"
    by (simp add: extract_race_info_data01_key r_def)
  have 1: "t \<in> set track_conditions" if "extract_race_info P pg rt ''track_condition'' = Some t" for t
  proof (cases "snd r")
    case None
    with that e have s: "fst (step_race_data01 pg (fst r)) ''track_condition'' = Some t"
      by (simp add: then_do_ok)
    then obtain items where "page_query_selector_all pg ''.RaceData01 span'' = Inr items"
        and "fst (scan_race_data01 items (fst r)) ''track_condition'' = Some t"
      using r0 by (auto simp: step_race_data01_def split: sum.splits)
    from scan_race_data01_track [OF this(2)] r0 show ?thesis by simp
  next
    case (Some ex)
    with that e r0 show ?thesis by (simp add: then_do_def)
  qed
  have 2: "extract_race_info P pg rt ''track_condition'' = None"
    if "page_query_selector_all pg ''.RaceData01 span'' = Inr items \<and>
       (\<forall>item \<in> set items. \<forall>t. inner_text item = Inr t \<longrightarrow> strip t \<notin> set track_conditions)"
    for items
  proof (cases "snd r")
    case None
    with that e r0 show ?thesis
      by (simp add: then_do_ok step_race_data01_def scan_race_data01_no_track)
  next
    case (Some ex)
    with e r0 show ?thesis by (simp add: then_do_def)
  qed
  from 1 2 show ?thesis by blast
qed


lemmas info_run =
  info_page_def static_page_def node_def leaf_def lookup_def first_of_def
  step_race_name_def step_race_data01_def strip_def is_space_def is_distance_def
  is_track_condition_def track_conditions_def asc_def

theorem track_condition_closed_set_witness:
  "extract_race_info ascii_platform
      (info_page [[12480] @ asc ''1500m'', [31245, 37325], asc '' '' @ [33391] @ asc '' ''] [] (asc ''t''))
      ''jra'' ''track_condition'' = Some [33391] \<and>
   [33391] \<in> set track_conditions \<and>
   extract_race_info ascii_platform (info_page [asc ''heavy'', [33391, 33391]] [] (asc ''t''))
      ''jra'' ''track_condition'' = None"
proof -
  have v: "extract_race_info ascii_platform
      (info_page [[12480] @ asc ''1500m'', [31245, 37325], asc '' '' @ [33391] @ asc '' ''] [] (asc ''t''))
      ''jra'' ''track_condition'' = Some [33391]"
    by (simp add: extract_race_info_data01_key info_run)
  have m: "[33391] \<in> set track_conditions"
    by (rule track_condition_closed_set [THEN conjunct1, rule_format, OF v])
  have n: "extract_race_info ascii_platform (info_page [asc ''heavy'', [33391, 33391]] [] (asc ''t''))
      ''jra'' ''track_condition'' = None"
    by (rule track_condition_closed_set [THEN conjunct2, rule_format,
          of _ "map leaf [asc ''heavy'', [33391, 33391]]"])
      (simp add: info_run)
  from v m n show ?thesis by simp
qed

section \<open>The span loops of extract_race_info\<close>

lemma track_not_distance: "is_track_condition t \<Longrightarrow> \<not> is_distance t"
  by (auto simp: is_track_condition_def track_conditions_def is_distance_def)

lemma inner_texts_Cons:
  "inner_texts (el # els) = Inr ts \<longleftrightarrow>
     (\<exists>u us. inner_text el = Inr u \<and> inner_texts els = Inr us \<and> ts = u # us)"
  by (auto split: sum.splits)

lemma scan_race_data01_all:
  "inner_texts items = Inr ts \<Longrightarrow>
     snd (scan_race_data01 items ri) = None \<and>
     fst (scan_race_data01 items ri) ''distance'' =
       (if filter is_distance (map strip ts) = [] then ri ''distance''
        else Some (last (filter is_distance (map strip ts)))) \<and>
     fst (scan_race_data01 items ri) ''track_condition'' =
       (if filter is_track_condition (map strip ts) = [] then ri ''track_condition''
        else Some (last (filter is_track_condition (map strip ts))))"
proof (induction items arbitrary: ri ts)
  case Nil
  then show ?case by auto
next
  case (Cons item items)
  from Cons.prems obtain u us where u: "inner_text item = Inr u" "inner_texts items = Inr us"
      "ts = u # us"
    unfolding inner_texts_Cons by blast
  define ri' where "ri' =
            (if is_distance (strip u) then ri(''distance'' \<mapsto> strip u)
             else if is_track_condition (strip u) then ri(''track_condition'' \<mapsto> strip u)
             else ri)"
  have step: "scan_race_data01 (item # items) ri = scan_race_data01 items ri'"
    by (simp add: u(1) ri'_def)
  note ih = Cons.IH [OF u(2), of ri']
  have d: "ri' ''distance'' = (if is_distance (strip u) then Some (strip u) else ri ''distance'')"
    by (simp add: ri'_def)
  have t: "ri' ''track_condition'' =
      (if is_track_condition (strip u) then Some (strip u) else ri ''track_condition'')"
    using track_not_distance [of "strip u"] by (auto simp: ri'_def)
  show ?case
    unfolding step u(3) using ih by (simp add: d t)
qed

lemma scan_race_data02_all:
  "inner_texts items = Inr ts \<Longrightarrow>
     snd (scan_race_data02 P items ri) = None \<and>
     fst (scan_race_data02 P items ri) ''race_class'' =
       (if filter (is_race_class P) (map strip ts) = [] then ri ''race_class''
        else Some (last (filter (is_race_class P) (map strip ts))))"
proof (induction items arbitrary: ri ts)
  case Nil
  then show ?case by auto
next
  case (Cons item items)
  from Cons.prems obtain u us where u: "inner_text item = Inr u" "inner_texts items = Inr us"
      "ts = u # us"
    unfolding inner_texts_Cons by blast
  define ri' where "ri' =
            (if is_race_class P (strip u) then ri(''race_class'' \<mapsto> strip u) else ri)"
  have step: "scan_race_data02 P (item # items) ri = scan_race_data02 P items ri'"
    by (simp add: u(1) ri'_def)
  note ih = Cons.IH [OF u(2), of ri']
  have c: "ri' ''race_class'' = (if is_race_class P (strip u) then Some (strip u) else ri ''race_class'')"
    by (simp add: ri'_def)
  show ?case
    unfolding step u(3) using ih by (simp add: c)
qed

lemma extract_race_info_class_key:
  "extract_race_info P pg rt ''race_class'' = fst (race_info_upto_class P pg rt) ''race_class''"
  unfolding extract_race_info_def race_info_block_def race_info_upto_number_def
  by (simp add: then_do_key step_page_title_other step_race_date_other step_race_number_other)

text \<open>
  C10, as the code has it. The span loops run inside the one \<open>try\<close> of
  \<open>extract_race_info\<close>, and a span that cannot be read ends them. When the
  statements before the span loops do not raise and every span of a data section can
  be read, the value kept for \<open>distance\<close>, for
  \<open>track_condition\<close> and for \<open>race_class\<close> is the stripped text of the last span,
  in document order, that passes the test of the field: a later match overwrites an
  earlier one.
\<close>

theorem last_matching_span_wins:
  assumes "snd (step_race_name pg rt Map.empty) = None"
    and "page_query_selector_all pg ''.RaceData01 span'' = Inr items"
    and "inner_texts items = Inr ts"
  shows "(filter is_distance (map strip ts) \<noteq> [] \<longrightarrow>
           extract_race_info P pg rt ''distance'' = Some (last (filter is_distance (map strip ts)))) \<and>
         (filter is_track_condition (map strip ts) \<noteq> [] \<longrightarrow>
           extract_race_info P pg rt ''track_condition'' =
             Some (last (filter is_track_condition (map strip ts)))) \<and>
         (\<forall>items2 ts2.
            page_query_selector_all pg ''.RaceData02 span'' = Inr items2 \<and>
            inner_texts items2 = Inr ts2 \<and> filter (is_race_class P) (map strip ts2) \<noteq> [] \<longrightarrow>
            extract_race_info P pg rt ''race_class'' =
              Some (last (filter (is_race_class P) (map strip ts2))))"
proof -
  define r0 where "r0 = fst (step_race_name pg rt Map.empty)"
  have s1: "then_do (step_race_name pg rt Map.empty) (step_race_data01 pg) = scan_race_data01 items r0"
    by (simp add: then_do_ok assms(1,2) r0_def step_race_data01_def)
  note a = scan_race_data01_all [OF assms(3), of r0]
  have d: "extract_race_info P pg rt ''distance'' = Some (last (filter is_distance (map strip ts)))"
    if "filter is_distance (map strip ts) \<noteq> []"
    using that a by (simp add: extract_race_info_data01_key s1)
  have t: "extract_race_info P pg rt ''track_condition'' =
             Some (last (filter is_track_condition (map strip ts)))"
    if "filter is_track_condition (map strip ts) \<noteq> []"
    using that a by (simp add: extract_race_info_data01_key s1)
  have c: "extract_race_info P pg rt ''race_class'' =
              Some (last (filter (is_race_class P) (map strip ts2)))"
    if "page_query_selector_all pg ''.RaceData02 span'' = Inr items2 \<and>
            inner_texts items2 = Inr ts2 \<and> filter (is_race_class P) (map strip ts2) \<noteq> []"
    for items2 ts2
  proof -
    define r1 where "r1 = fst (scan_race_data01 items r0)"
    have "race_info_upto_class P pg rt = scan_race_data02 P items2 r1"
      using a that by (simp add: race_info_upto_class_def s1 then_do_ok step_race_data02_def r1_def)
    with scan_race_data02_all [of items2 ts2 P r1] that show ?thesis
      by (simp add: extract_race_info_class_key)
  qed
  from d t c show ?thesis by blast
qed


theorem last_matching_span_wins_witness:
  "extract_race_info ascii_platform
     (info_page [[33437] @ asc ''2000m'', [12480] @ asc ''1500m'', [33391], asc ''fast'', [37325]]
        [asc ''G3'', asc ''x'', asc ''G1''] (asc ''t''))
     ''jra'' ''distance'' = Some ([12480] @ asc ''1500m'') \<and>
   extract_race_info ascii_platform
     (info_page [[33437] @ asc ''2000m'', [12480] @ asc ''1500m'', [33391], asc ''fast'', [37325]]
        [asc ''G3'', asc ''x'', asc ''G1''] (asc ''t''))
     ''jra'' ''track_condition'' = Some [37325] \<and>
   extract_race_info ascii_platform
     (info_page [[33437] @ asc ''2000m'', [12480] @ asc ''1500m'', [33391], asc ''fast'', [37325]]
        [asc ''G3'', asc ''x'', asc ''G1''] (asc ''t''))
     ''jra'' ''race_class'' = Some (asc ''G1'')"
proof -
  define spans01 where
    "spans01 = [[33437] @ asc ''2000m'', [12480] @ asc ''1500m'', [33391], asc ''fast'', [37325]]"
  define spans02 where "spans02 = [asc ''G3'', asc ''x'', asc ''G1'']"
  define pg where "pg = info_page spans01 spans02 (asc ''t'')"
  have h1: "snd (step_race_name pg ''jra'' Map.empty) = None"
    by (simp add: pg_def info_run)
  have h2: "page_query_selector_all pg ''.RaceData01 span'' = Inr (map leaf spans01)"
    by (simp add: pg_def info_run)
  have h3: "inner_texts (map leaf spans01) = Inr spans01"
    by (simp add: spans01_def leaf_def)
  have k2: "page_query_selector_all pg ''.RaceData02 span'' = Inr (map leaf spans02)"
    by (simp add: pg_def info_run)
  have k3: "inner_texts (map leaf spans02) = Inr spans02"
    by (simp add: spans02_def leaf_def)
  have f1: "filter is_distance (map strip spans01) = [[33437] @ asc ''2000m'', [12480] @ asc ''1500m'']"
    by (simp add: spans01_def strip_def is_space_def is_distance_def asc_def)
  have f2: "filter is_track_condition (map strip spans01) = [[33391], [37325]]"
    by (simp add: spans01_def strip_def is_space_def is_track_condition_def track_conditions_def asc_def)
  have f3: "filter (is_race_class ascii_platform) (map strip spans02) = [asc ''G3'', asc ''G1'']"
    by (simp add: spans02_def strip_def is_space_def is_race_class_def race_classes_def asc_def
        isdigit_def ascii_digit_def ascii_platform_def)
  note T = last_matching_span_wins [OF h1 h2 h3, of ascii_platform]
  have 1: "extract_race_info ascii_platform pg ''jra'' ''distance'' = Some ([12480] @ asc ''1500m'')"
    using T [THEN conjunct1] by (simp add: f1)
  have 2: "extract_race_info ascii_platform pg ''jra'' ''track_condition'' = Some [37325]"
    using T [THEN conjunct2, THEN conjunct1] by (simp add: f2)
  have 3: "extract_race_info ascii_platform pg ''jra'' ''race_class'' = Some (asc ''G1'')"
    using T [THEN conjunct2, THEN conjunct2, rule_format, of "map leaf spans02" spans02] k2 k3
    by (simp add: f3)
  from 1 2 3 show ?thesis
    unfolding pg_def spans01_def spans02_def by simp
qed

text \<open>
  Three spans, a turf distance, a span that cannot be read and a dirt distance: the
  loop stops at the second, and the distance kept is that of the first span, not of
  the last matching one.
\<close>

theorem unreadable_span_counterexample:
  "page_query_selector_all
     (span_page [leaf ([33437] @ asc ''1600m''), broken, leaf ([12480] @ asc ''1500m'')] (asc ''t''))
     ''.RaceData01 span'' =
     Inr [leaf ([33437] @ asc ''1600m''), broken, leaf ([12480] @ asc ''1500m'')] \<and>
   inner_text (leaf ([12480] @ asc ''1500m'')) = Inr ([12480] @ asc ''1500m'') \<and>
   is_distance (strip ([12480] @ asc ''1500m'')) \<and>
   extract_race_info ascii_platform
     (span_page [leaf ([33437] @ asc ''1600m''), broken, leaf ([12480] @ asc ''1500m'')] (asc ''t''))
     ''jra'' ''distance'' = Some ([33437] @ asc ''1600m'')"
  by (simp add: extract_race_info_data01_key span_page_def broken_def info_run)

section \<open>The date of the page title\<close>

lemma starts_with_single: "starts_with [c] s \<longleftrightarrow> (\<exists>post. s = c # post)"
  by (simp add: starts_with_iff)

lemma digits12_sound:
  assumes "digits12 P s k = Some (ds, r)"
  shows "digit_run P ds \<and> (\<exists>rest. s = ds @ rest \<and> k rest = Some r)"
proof (cases "2 \<le> length s \<and> list_all (re_digit P) (take 2 s) \<and> k (drop 2 s) \<noteq> None")
  case True
  with assms have "ds = take 2 s" "k (drop 2 s) = Some r"
    by (auto simp: digits12_def)
  moreover have "s = take 2 s @ drop 2 s" by simp
  moreover have "length (take 2 s) = 2" using True by simp
  ultimately show ?thesis using True unfolding digit_run_def by blast
next
  case False
  then have first: "(if 2 \<le> length s \<and> list_all (re_digit P) (take 2 s) then k (drop 2 s) else None) = None"
    by auto
  from assms have c: "1 \<le> length s" "list_all (re_digit P) (take 1 s)"
    unfolding digits12_def first by (auto split: if_splits)
  with assms have "ds = take 1 s" "k (drop 1 s) = Some r"
    unfolding digits12_def first by (auto split: option.splits)
  moreover have "s = take 1 s @ drop 1 s" by simp
  moreover have "length (take 1 s) = 1" using c(1) by simp
  ultimately show ?thesis using c unfolding digit_run_def by blast
qed

lemma digits12_complete:
  assumes "digit_run P ds" and "k rest = Some r"
  shows "digits12 P (ds @ rest) k \<noteq> None"
proof (cases "(if 2 \<le> length (ds @ rest) \<and> list_all (re_digit P) (take 2 (ds @ rest))
                then k (drop 2 (ds @ rest)) else None)")
  case (Some a)
  then show ?thesis by (simp add: digits12_def)
next
  case None
  have "length ds = 1"
  proof (rule ccontr)
    assume "length ds \<noteq> 1"
    with assms(1) have "length ds = 2" by (auto simp: digit_run_def)
    with assms None show False by (simp add: digit_run_def)
  qed
  with assms have "1 \<le> length (ds @ rest)" "list_all (re_digit P) (take 1 (ds @ rest))"
      "k (drop 1 (ds @ rest)) = Some r"
    by (simp_all add: digit_run_def)
  then show ?thesis
    unfolding digits12_def None by simp
qed

lemma day_at_sound:
  "day_at P s = Some (d, u) \<Longrightarrow> digit_run P d \<and> (\<exists>post. s = d @ [26085] @ post)"
  unfolding day_at_def
  by (drule digits12_sound) (auto simp: starts_with_single split: if_splits)

lemma day_at_complete:
  "digit_run P d \<Longrightarrow> day_at P (d @ [26085] @ post) \<noteq> None"
  unfolding day_at_def by (rule digits12_complete) simp_all

lemma month_day_at_sound:
  assumes "month_day_at P s = Some (m, d, u)"
  shows "digit_run P m \<and> digit_run P d \<and> (\<exists>post. s = m @ [26376] @ d @ [26085] @ post)"
proof -
  from digits12_sound [OF assms [unfolded month_day_at_def]]
  obtain rest where r: "digit_run P m" "s = m @ rest"
      "(if starts_with [26376] rest then day_at P (drop 1 rest) else None) = Some (d, u)"
    by blast
  from r(3) obtain rest' where r': "rest = 26376 # rest'" "day_at P rest' = Some (d, u)"
    by (auto simp: starts_with_single split: if_splits)
  from day_at_sound [OF r'(2)] r r' show ?thesis by auto
qed

lemma month_day_at_complete:
  assumes "digit_run P m" and "digit_run P d"
  shows "month_day_at P (m @ [26376] @ d @ [26085] @ post) \<noteq> None"
proof -
  from day_at_complete [OF assms(2), of post]
  obtain r where "day_at P (d @ [26085] @ post) = Some r" by blast
  then have "(if starts_with [26376] ([26376] @ d @ [26085] @ post)
              then day_at P (drop 1 ([26376] @ d @ [26085] @ post)) else None) = Some r"
    by simp
  with assms(1) show ?thesis
    unfolding month_day_at_def by (rule digits12_complete)
qed

lemma date_at_sound:
  assumes "date_at P s = Some (y, m, d)"
  shows "length y = 4 \<and> list_all (re_digit P) y \<and> digit_run P m \<and> digit_run P d \<and>
         (\<exists>post. s = y @ [24180] @ m @ [26376] @ d @ [26085] @ post)"
proof -
  from assms have c: "4 \<le> length s" "list_all (re_digit P) (take 4 s)"
      "starts_with [24180] (drop 4 s)"
    by (auto simp: date_at_def split: if_splits)
  with assms obtain u where md: "month_day_at P (drop 5 s) = Some (m, d, u)" and y: "y = take 4 s"
    by (auto simp: date_at_def split: option.splits)
  from c(3) obtain rest where rest: "drop 4 s = 24180 # rest"
    by (auto simp: starts_with_single)
  moreover have "drop 5 s = drop 1 (drop 4 s)" by simp
  ultimately have "drop 5 s = rest" by simp
  with md have "month_day_at P rest = Some (m, d, u)" by simp
  from month_day_at_sound [OF this] obtain post where
    p: "digit_run P m" "digit_run P d" "rest = m @ [26376] @ d @ [26085] @ post"
    by blast
  have "take 4 s @ drop 4 s = s" by (rule append_take_drop_id)
  then have "y @ 24180 # m @ [26376] @ d @ [26085] @ post = s"
    unfolding rest p(3) y [symmetric] .
  then have e: "s = y @ [24180] @ m @ [26376] @ d @ [26085] @ post"
    by simp
  have l: "length y = 4" "list_all (re_digit P) y"
    using c(1,2) by (simp_all add: y)
  from l p(1,2) e show ?thesis by blast
qed

lemma date_at_complete:
  assumes "length y = 4" and "list_all (re_digit P) y" and "digit_run P m" and "digit_run P d"
  shows "date_at P (y @ [24180] @ m @ [26376] @ d @ [26085] @ post) \<noteq> None"
proof -
  from month_day_at_complete [OF assms(3,4), of post]
  obtain r where "month_day_at P (m @ [26376] @ d @ [26085] @ post) = Some r" by blast
  with assms(1,2) show ?thesis
    by (cases r) (simp add: date_at_def)
qed

lemma zfill_digit_run:
  assumes "digit_run P ds"
  shows "length (zfill 2 ds) = 2 \<and> (length ds = 1 \<longrightarrow> zfill 2 ds = 48 # ds) \<and>
         (length ds = 2 \<longrightarrow> zfill 2 ds = ds)"
proof (cases "length ds = 2")
  case True
  then show ?thesis by (simp add: zfill_def)
next
  case False
  with assms have l: "length ds = 1" by (auto simp: digit_run_def)
  then obtain c where c: "ds = [c]" by (cases ds) auto
  with assms have "re_digit P c" by (simp add: digit_run_def)
  then have "c \<noteq> 43" "c \<noteq> 45" by (auto simp: re_digit_def ascii_digit_def)
  with c show ?thesis by (simp add: zfill_def)
qed


lemma date_search_leftmost:
  "date_at P s' \<noteq> None \<Longrightarrow>
     \<exists>pre' s'' g. pre @ s' = pre' @ s'' \<and> length pre' \<le> length pre \<and>
        date_at P s'' = Some g \<and> date_search P (pre @ s') = Some g"
proof (induction pre)
  case Nil
  then obtain g where g: "date_at P s' = Some g" by blast
  then have "date_search P s' = Some g" by (cases s') auto
  with g have "[] @ s' = [] @ s' \<and> length ([]::ustr) \<le> length ([]::ustr) \<and>
        date_at P s' = Some g \<and> date_search P ([] @ s') = Some g"
    by simp
  then show ?case by blast
next
  case (Cons c pre)
  show ?case
  proof (cases "date_at P (c # pre @ s')")
    case None
    from Cons.IH [OF Cons.prems] obtain pre' s'' g where
      i: "pre @ s' = pre' @ s''" "length pre' \<le> length pre" "date_at P s'' = Some g"
         "date_search P (pre @ s') = Some g"
      by blast
    with None have "(c # pre) @ s' = (c # pre') @ s'' \<and> length (c # pre') \<le> length (c # pre) \<and>
        date_at P s'' = Some g \<and> date_search P ((c # pre) @ s') = Some g"
      by simp
    then show ?thesis by blast
  next
    case (Some g)
    then have "(c # pre) @ s' = [] @ (c # pre @ s') \<and> length ([]::ustr) \<le> length (c # pre) \<and>
        date_at P (c # pre @ s') = Some g \<and> date_search P ((c # pre) @ s') = Some g"
      by simp
    then show ?thesis by blast
  qed
qed

lemma extract_race_info_date_key:
  "extract_race_info P pg rt ''race_date'' =
     fst (then_do (race_info_upto_number P pg rt) (step_race_date P pg)) ''race_date''"
  unfolding extract_race_info_def race_info_block_def
  by (simp add: then_do_key step_page_title_other)

lemma step_race_date_key:
  "page_query_selector pg ''title'' = Inr (Some el) \<Longrightarrow> inner_text el = Inr t \<Longrightarrow>
     date_search P (strip t) = Some g \<Longrightarrow>
     fst (step_race_date P pg ri) ''race_date'' = Some (format_date g)"
  by (simp add: step_race_date_def)

text \<open>
  C8, as the code has it. The date is extracted inside the one \<open>try\<close> of
  \<open>extract_race_info\<close>, after the race name, the two span loops and the race
  number. When the statements before the date extraction do not raise and the stripped
  title contains a year of four digits, U+5E74, a month of one or two digits, U+6708,
  a day of one or two digits and U+65E5, the \<open>race_date\<close> of the result is built
  from such an occurrence in the title, not to the right of the given one: its year, a
  slash, its month padded with a zero to two digits, a slash, and its day padded
  alike.
\<close>

theorem race_date_format:
  assumes "snd (race_info_upto_number P pg rt) = None"
    and "page_query_selector pg ''title'' = Inr (Some title_elem)"
    and "inner_text title_elem = Inr title"
    and "strip title = pre @ y @ [24180] @ m @ [26376] @ d @ [26085] @ post"
    and "length y = 4" and "list_all (re_digit P) y" and "digit_run P m" and "digit_run P d"
  shows "\<exists>pre' y' m' d' post'.
           strip title = pre' @ y' @ [24180] @ m' @ [26376] @ d' @ [26085] @ post' \<and>
           length pre' \<le> length pre \<and>
           length y' = 4 \<and> list_all (re_digit P) y' \<and> digit_run P m' \<and> digit_run P d' \<and>
           extract_race_info P pg rt ''race_date'' =
             Some (y' @ [47] @ zfill 2 m' @ [47] @ zfill 2 d') \<and>
           length (zfill 2 m') = 2 \<and> length (zfill 2 d') = 2 \<and>
           (length m' = 1 \<longrightarrow> zfill 2 m' = 48 # m') \<and> (length m' = 2 \<longrightarrow> zfill 2 m' = m') \<and>
           (length d' = 1 \<longrightarrow> zfill 2 d' = 48 # d') \<and> (length d' = 2 \<longrightarrow> zfill 2 d' = d')"
proof -
  have "date_at P (y @ [24180] @ m @ [26376] @ d @ [26085] @ post) \<noteq> None"
    using assms(5-8) by (rule date_at_complete)
  from date_search_leftmost [OF this, of pre] obtain pre' s'' g where
    f: "pre @ y @ [24180] @ m @ [26376] @ d @ [26085] @ post = pre' @ s''"
       "length pre' \<le> length pre" "date_at P s'' = Some g"
       "date_search P (pre @ y @ [24180] @ m @ [26376] @ d @ [26085] @ post) = Some g"
    by blast
  obtain y' m' d' where g: "g = (y', m', d')" by (cases g) auto
  from date_at_sound [OF f(3) [unfolded g]] obtain post' where
    s: "length y' = 4" "list_all (re_digit P) y'" "digit_run P m'" "digit_run P d'"
       "s'' = y' @ [24180] @ m' @ [26376] @ d' @ [26085] @ post'"
    by blast
  have t: "strip title = pre' @ y' @ [24180] @ m' @ [26376] @ d' @ [26085] @ post'"
    unfolding assms(4) f(1) s(5) ..
  have ds: "date_search P (strip title) = Some (y', m', d')"
    unfolding assms(4) f(4) g ..
  have v: "extract_race_info P pg rt ''race_date'' =
             Some (y' @ [47] @ zfill 2 m' @ [47] @ zfill 2 d')"
    using step_race_date_key [OF assms(2,3) ds]
    by (simp add: extract_race_info_date_key then_do_ok assms(1) format_date_def)
  from t f(2) s(1-4) v zfill_digit_run [OF s(3)] zfill_digit_run [OF s(4)]
  show ?thesis by blast
qed


lemmas date_run =
  date_at_def month_day_at_def day_at_def digits12_def re_digit_def ascii_digit_def
  ascii_platform_def format_date_def zfill_def strip_def is_space_def asc_def

theorem race_date_format_witness:
  "(\<exists>pre' y' m' d' post'.
      strip (asc ''G1 2024'' @ [24180] @ asc ''3'' @ [26376] @ asc ''10'' @ [26085] @ asc '' result '') =
        pre' @ y' @ [24180] @ m' @ [26376] @ d' @ [26085] @ post' \<and>
      length pre' \<le> length (asc ''G1 '') \<and>
      length y' = 4 \<and> list_all (re_digit ascii_platform) y' \<and>
      digit_run ascii_platform m' \<and> digit_run ascii_platform d' \<and>
      extract_race_info ascii_platform
        (info_page [] []
           (asc ''G1 2024'' @ [24180] @ asc ''3'' @ [26376] @ asc ''10'' @ [26085] @ asc '' result ''))
        ''jra'' ''race_date'' = Some (y' @ [47] @ zfill 2 m' @ [47] @ zfill 2 d') \<and>
      length (zfill 2 m') = 2 \<and> length (zfill 2 d') = 2 \<and>
      (length m' = 1 \<longrightarrow> zfill 2 m' = 48 # m') \<and> (length m' = 2 \<longrightarrow> zfill 2 m' = m') \<and>
      (length d' = 1 \<longrightarrow> zfill 2 d' = 48 # d') \<and> (length d' = 2 \<longrightarrow> zfill 2 d' = d')) \<and>
   extract_race_info ascii_platform
     (info_page [] []
        (asc ''G1 2024'' @ [24180] @ asc ''3'' @ [26376] @ asc ''10'' @ [26085] @ asc '' result ''))
     ''jra'' ''race_date'' = Some (asc ''2024/03/10'')"
proof -
  define title where
    "title = asc ''G1 2024'' @ [24180] @ asc ''3'' @ [26376] @ asc ''10'' @ [26085] @ asc '' result ''"
  define pg where "pg = info_page [] [] title"
  have h1: "snd (race_info_upto_number ascii_platform pg ''jra'') = None"
    by (simp add: race_info_upto_number_def race_info_upto_class_def pg_def info_run
        step_race_data02_def step_race_number_def race_num_search_def re_digit_def ascii_digit_def
        ascii_platform_def)
  have h2: "page_query_selector pg ''title'' = Inr (Some (leaf title))"
    by (simp add: pg_def info_page_def static_page_def lookup_def first_of_def)
  have h3: "inner_text (leaf title) = Inr title"
    by (simp add: leaf_def)
  have h4: "strip title = asc ''G1 '' @ asc ''2024'' @ [24180] @ asc ''3'' @ [26376] @ asc ''10'' @
      [26085] @ asc '' result''"
    by (simp add: title_def strip_def is_space_def asc_def)
  have h5: "length (asc ''2024'') = 4" "list_all (re_digit ascii_platform) (asc ''2024'')"
    "digit_run ascii_platform (asc ''3'')" "digit_run ascii_platform (asc ''10'')"
    by (simp_all add: digit_run_def re_digit_def ascii_digit_def asc_def)
  note T = race_date_format [OF h1 h2 h3 h4 h5]
  have ds: "date_search ascii_platform (strip title) = Some (asc ''2024'', asc ''3'', asc ''10'')"
    unfolding h4 by (simp add: date_run)
  have v: "extract_race_info ascii_platform pg ''jra'' ''race_date'' = Some (asc ''2024/03/10'')"
    using step_race_date_key [OF h2 h3 ds]
    by (simp add: extract_race_info_date_key then_do_ok h1 format_date_def zfill_def asc_def)
  from T v show ?thesis
    unfolding pg_def title_def by blast
qed

text \<open>
  A page whose title holds the date and whose only span of the first data section
  cannot be read: the exception ends the body of the \<open>try\<close> before the date is
  extracted, and the result has no \<open>race_date\<close>.
\<close>

theorem race_date_lost_counterexample:
  "page_query_selector
     (span_page [broken] (asc ''G1 2024'' @ [24180] @ asc ''3'' @ [26376] @ asc ''10'' @ [26085]))
     ''title'' =
     Inr (Some (leaf (asc ''G1 2024'' @ [24180] @ asc ''3'' @ [26376] @ asc ''10'' @ [26085]))) \<and>
   date_search ascii_platform
     (strip (asc ''G1 2024'' @ [24180] @ asc ''3'' @ [26376] @ asc ''10'' @ [26085])) =
     Some (asc ''2024'', asc ''3'', asc ''10'') \<and>
   snd (race_info_block ascii_platform
     (span_page [broken] (asc ''G1 2024'' @ [24180] @ asc ''3'' @ [26376] @ asc ''10'' @ [26085]))
     ''jra'') = Some PlaywrightError \<and>
   extract_race_info ascii_platform
     (span_page [broken] (asc ''G1 2024'' @ [24180] @ asc ''3'' @ [26376] @ asc ''10'' @ [26085]))
     ''jra'' ''race_date'' = None"
proof -
  have d: "date_search ascii_platform
     (strip (asc ''G1 2024'' @ [24180] @ asc ''3'' @ [26376] @ asc ''10'' @ [26085])) =
     Some (asc ''2024'', asc ''3'', asc ''10'')"
    by (simp add: date_run)
  have b: "race_info_block ascii_platform
     (span_page [broken] (asc ''G1 2024'' @ [24180] @ asc ''3'' @ [26376] @ asc ''10'' @ [26085]))
     ''jra'' = ([''race_name'' \<mapsto> asc ''Kinen''], Some PlaywrightError)"
    by (simp add: race_info_block_def race_info_upto_number_def race_info_upto_class_def
        span_page_def broken_def info_run)
  have q: "page_query_selector
     (span_page [broken] (asc ''G1 2024'' @ [24180] @ asc ''3'' @ [26376] @ asc ''10'' @ [26085]))
     ''title'' =
     Inr (Some (leaf (asc ''G1 2024'' @ [24180] @ asc ''3'' @ [26376] @ asc ''10'' @ [26085])))"
    by (simp add: span_page_def static_page_def lookup_def first_of_def)
  from d b q show ?thesis
    by (simp add: extract_race_info_def)
qed

section \<open>The corner table and the lap table\<close>

lemma corner_row_raise: "snd (corner_row row cd) = Some e \<Longrightarrow> fst (corner_row row cd) = cd"
  by (auto simp: corner_row_def split: sum.splits option.splits)

lemma scan_corner_rows_append:
  "scan_corner_rows (xs @ ys) cd = then_do (scan_corner_rows xs cd) (scan_corner_rows ys)"
proof (induction xs arbitrary: cd)
  case Nil
  then show ?case by simp
next
  case (Cons x xs)
  show ?case
  proof (cases "snd (corner_row x cd)")
    case None
    then show ?thesis by (simp add: then_do_ok Cons.IH)
  next
    case (Some e)
    then show ?thesis by (simp add: then_do_def)
  qed
qed

text \<open>
  C2, as the code has it. The \<open>except\<close> clause of the two extractors only prints,
  and the \<open>return\<close> after it returns the dictionary as it stands. When a row of the
  corner table raises, \<open>extract_corner_data\<close> returns the entries of the rows
  before it; when the third row of the lap table raises, \<open>extract_lap_times\<close>
  returns the distances and the cumulative times stored before; when the first or the
  second row raises, nothing was stored and the result is empty.
\<close>

theorem partial_results_kept:
  "(page_query_selector_all pg ''table.Corner_Num tr'' = Inr (before @ bad # rest) \<and>
    scan_corner_rows before Map.empty = (cd, None) \<and> snd (corner_row bad cd) = Some e \<longrightarrow>
      corner_block pg = (cd, Some e) \<and> extract_corner_data pg = cd) \<and>
   (page_query_selector pg ''table.Race_HaronTime'' = Inr (Some lap_table) \<and>
    query_selector_all lap_table ''tbody tr'' = Inr rows \<and> 3 \<le> length rows \<and>
    row_texts (rows ! 0) ''th'' = Inr distances \<and>
    row_texts (rows ! 1) ''td'' = Inr cumulative_times \<and>
    row_texts (rows ! 2) ''td'' = Inl e' \<longrightarrow>
      lap_block pg =
        ([''distances'' \<mapsto> distances, ''cumulative_times'' \<mapsto> cumulative_times], Some e') \<and>
      extract_lap_times pg =
        [''distances'' \<mapsto> distances, ''cumulative_times'' \<mapsto> cumulative_times]) \<and>
   (page_query_selector pg ''table.Race_HaronTime'' = Inr (Some lap_table) \<and>
    query_selector_all lap_table ''tbody tr'' = Inr rows \<and> 1 \<le> length rows \<and>
    (row_texts (rows ! 0) ''th'' = Inl e' \<or>
     row_texts (rows ! 0) ''th'' = Inr distances \<and> 2 \<le> length rows \<and>
     row_texts (rows ! 1) ''td'' = Inl e') \<longrightarrow>
      lap_block pg = (Map.empty, Some e') \<and> extract_lap_times pg = Map.empty)"
proof (intro conjI impI)
  assume a: "page_query_selector_all pg ''table.Corner_Num tr'' = Inr (before @ bad # rest) \<and>
    scan_corner_rows before Map.empty = (cd, None) \<and> snd (corner_row bad cd) = Some e"
  then have r: "corner_row bad cd = (cd, Some e)"
    using corner_row_raise [of bad cd e] by (cases "corner_row bad cd") simp
  from a show b: "corner_block pg = (cd, Some e)"
    by (simp add: corner_block_def scan_corner_rows_append r)
  then show "extract_corner_data pg = cd"
    by (simp add: extract_corner_data_def)
next
  assume a: "page_query_selector pg ''table.Race_HaronTime'' = Inr (Some lap_table) \<and>
    query_selector_all lap_table ''tbody tr'' = Inr rows \<and> 3 \<le> length rows \<and>
    row_texts (rows ! 0) ''th'' = Inr distances \<and>
    row_texts (rows ! 1) ''td'' = Inr cumulative_times \<and>
    row_texts (rows ! 2) ''td'' = Inl e'"
  then show b: "lap_block pg =
        ([''distances'' \<mapsto> distances, ''cumulative_times'' \<mapsto> cumulative_times], Some e')"
    by (simp add: lap_block_def lap_rows_def)
  then show "extract_lap_times pg =
        [''distances'' \<mapsto> distances, ''cumulative_times'' \<mapsto> cumulative_times]"
    by (simp add: extract_lap_times_def)
next
  assume a: "page_query_selector pg ''table.Race_HaronTime'' = Inr (Some lap_table) \<and>
    query_selector_all lap_table ''tbody tr'' = Inr rows \<and> 1 \<le> length rows \<and>
    (row_texts (rows ! 0) ''th'' = Inl e' \<or>
     row_texts (rows ! 0) ''th'' = Inr distances \<and> 2 \<le> length rows \<and>
     row_texts (rows ! 1) ''td'' = Inl e')"
  then show b: "lap_block pg = (Map.empty, Some e')"
    by (auto simp: lap_block_def lap_rows_def)
  then show "extract_lap_times pg = Map.empty"
    by (simp add: extract_lap_times_def)
qed

lemmas table_run =
  corner_page_def lap_page_def corner_tr_def broken_tr_def lap_tr_def static_page_def node_def
  leaf_def broken_def lookup_def first_of_def corner_row_def row_texts_def bind_exn_def asc_def

theorem partial_results_kept_witness:
  "extract_corner_data (corner_page [corner_tr (asc ''1'') (asc ''3,4''), broken_tr,
       corner_tr (asc ''3'') (asc ''4,3'')]) = [asc ''corner_1'' \<mapsto> asc ''3,4''] \<and>
   extract_lap_times (lap_page [lap_tr [asc ''200m'', asc ''400m''] [],
       lap_tr [] [asc ''12.3'', asc ''23.9''], broken_tr]) =
     [''distances'' \<mapsto> [asc ''200m'', asc ''400m''],
      ''cumulative_times'' \<mapsto> [asc ''12.3'', asc ''23.9'']] \<and>
   extract_lap_times (lap_page [lap_tr [asc ''200m''] [], broken_tr]) = Map.empty"
proof -
  have c1: "page_query_selector_all
       (corner_page [corner_tr (asc ''1'') (asc ''3,4''), broken_tr, corner_tr (asc ''3'') (asc ''4,3'')])
       ''table.Corner_Num tr'' =
     Inr ([corner_tr (asc ''1'') (asc ''3,4'')] @ broken_tr # [corner_tr (asc ''3'') (asc ''4,3'')])"
    by (simp add: corner_page_def static_page_def lookup_def)
  have c2: "scan_corner_rows [corner_tr (asc ''1'') (asc ''3,4'')] Map.empty =
      ([asc ''corner_1'' \<mapsto> asc ''3,4''], None)"
    by (simp add: table_run)
  have c3: "snd (corner_row broken_tr [asc ''corner_1'' \<mapsto> asc ''3,4'']) = Some PlaywrightError"
    by (simp add: table_run)
  have l1: "page_query_selector (lap_page [lap_tr [asc ''200m'', asc ''400m''] [],
       lap_tr [] [asc ''12.3'', asc ''23.9''], broken_tr]) ''table.Race_HaronTime'' =
     Inr (Some (node [(''tbody tr'', [lap_tr [asc ''200m'', asc ''400m''] [],
       lap_tr [] [asc ''12.3'', asc ''23.9''], broken_tr])]))"
    by (simp add: lap_page_def static_page_def lookup_def first_of_def)
  have l2: "query_selector_all (node [(''tbody tr'', [lap_tr [asc ''200m'', asc ''400m''] [],
       lap_tr [] [asc ''12.3'', asc ''23.9''], broken_tr])]) ''tbody tr'' =
     Inr [lap_tr [asc ''200m'', asc ''400m''] [], lap_tr [] [asc ''12.3'', asc ''23.9''], broken_tr]"
    by (simp add: node_def lookup_def)
  have l3: "3 \<le> length [lap_tr [asc ''200m'', asc ''400m''] [], lap_tr [] [asc ''12.3'', asc ''23.9''], broken_tr]"
    by simp
  have l4: "row_texts ([lap_tr [asc ''200m'', asc ''400m''] [], lap_tr [] [asc ''12.3'', asc ''23.9''], broken_tr] ! 0)
      ''th'' = Inr [asc ''200m'', asc ''400m'']"
    by (simp add: table_run)
  have l5: "row_texts ([lap_tr [asc ''200m'', asc ''400m''] [], lap_tr [] [asc ''12.3'', asc ''23.9''], broken_tr] ! 1)
      ''td'' = Inr [asc ''12.3'', asc ''23.9'']"
    by (simp add: table_run)
  have l6: "row_texts ([lap_tr [asc ''200m'', asc ''400m''] [], lap_tr [] [asc ''12.3'', asc ''23.9''], broken_tr] ! 2)
      ''td'' = Inl PlaywrightError"
    by (simp add: table_run)
  have 1: "extract_corner_data (corner_page [corner_tr (asc ''1'') (asc ''3,4''), broken_tr,
       corner_tr (asc ''3'') (asc ''4,3'')]) = [asc ''corner_1'' \<mapsto> asc ''3,4'']"
    using partial_results_kept [THEN conjunct1, rule_format, OF conjI [OF c1 conjI [OF c2 c3]]]
    by (rule conjunct2)
  have 2: "extract_lap_times (lap_page [lap_tr [asc ''200m'', asc ''400m''] [],
       lap_tr [] [asc ''12.3'', asc ''23.9''], broken_tr]) =
     [''distances'' \<mapsto> [asc ''200m'', asc ''400m''],
      ''cumulative_times'' \<mapsto> [asc ''12.3'', asc ''23.9'']]"
    using partial_results_kept [THEN conjunct2, THEN conjunct1, rule_format,
        OF conjI [OF l1 conjI [OF l2 conjI [OF l3 conjI [OF l4 conjI [OF l5 l6]]]]]]
    by (rule conjunct2)
  have m1: "page_query_selector (lap_page [lap_tr [asc ''200m''] [], broken_tr])
       ''table.Race_HaronTime'' =
     Inr (Some (node [(''tbody tr'', [lap_tr [asc ''200m''] [], broken_tr])]))"
    by (simp add: lap_page_def static_page_def lookup_def first_of_def)
  have m2: "query_selector_all (node [(''tbody tr'', [lap_tr [asc ''200m''] [], broken_tr])])
       ''tbody tr'' = Inr [lap_tr [asc ''200m''] [], broken_tr]"
    by (simp add: node_def lookup_def)
  have m3: "1 \<le> length [lap_tr [asc ''200m''] [], broken_tr]"
    by simp
  have m4: "row_texts ([lap_tr [asc ''200m''] [], broken_tr] ! 0) ''th'' = Inl PlaywrightError \<or>
     row_texts ([lap_tr [asc ''200m''] [], broken_tr] ! 0) ''th'' = Inr [asc ''200m''] \<and>
     2 \<le> length [lap_tr [asc ''200m''] [], broken_tr] \<and>
     row_texts ([lap_tr [asc ''200m''] [], broken_tr] ! 1) ''td'' = Inl PlaywrightError"
    by (simp add: table_run)
  have 3: "extract_lap_times (lap_page [lap_tr [asc ''200m''] [], broken_tr]) = Map.empty"
    using partial_results_kept [THEN conjunct2, THEN conjunct2, rule_format,
        OF conjI [OF m1 conjI [OF m2 conjI [OF m3 m4]]]]
    by (rule conjunct2)
  from 1 2 3 show ?thesis by simp
qed

text \<open>
  A corner table whose second row cannot be read, and a lap table whose third row
  cannot be read: an exception is raised, and the result is not empty.
\<close>

theorem partial_results_counterexample:
  "snd (corner_block (corner_page [corner_tr (asc ''1'') (asc ''3,4''), broken_tr])) =
     Some PlaywrightError \<and>
   extract_corner_data (corner_page [corner_tr (asc ''1'') (asc ''3,4''), broken_tr])
     (asc ''corner_1'') = Some (asc ''3,4'') \<and>
   snd (lap_block (lap_page [lap_tr [asc ''200m''] [], lap_tr [] [asc ''12.3''], broken_tr])) =
     Some PlaywrightError \<and>
   extract_lap_times (lap_page [lap_tr [asc ''200m''] [], lap_tr [] [asc ''12.3''], broken_tr])
     ''distances'' = Some [asc ''200m'']"
  by (simp add: table_run corner_block_def extract_corner_data_def lap_block_def lap_rows_def
      extract_lap_times_def)


text \<open>
  C3, as the code has it. With a lap table whose rows can be read, the keys
  \<open>distances\<close> and \<open>cumulative_times\<close> are present exactly when the table has at
  least two rows (the distances of row 0 are stored under the test for row 1), the key
  \<open>interval_times\<close> exactly when it has at least three; there are no other keys,
  rows beyond the third are ignored, and with no row or one row the result is empty.
\<close>

theorem lap_times_by_row_count:
  assumes "page_query_selector pg ''table.Race_HaronTime'' = Inr (Some lap_table)"
    and "query_selector_all lap_table ''tbody tr'' = Inr rows"
    and "1 \<le> length rows \<longrightarrow> row_texts (rows ! 0) ''th'' = Inr distances"
    and "2 \<le> length rows \<longrightarrow> row_texts (rows ! 1) ''td'' = Inr cumulative_times"
    and "3 \<le> length rows \<longrightarrow> row_texts (rows ! 2) ''td'' = Inr interval_times"
  shows "snd (lap_block pg) = None \<and>
         (extract_lap_times pg ''distances'' = (if 2 \<le> length rows then Some distances else None)) \<and>
         (extract_lap_times pg ''cumulative_times'' =
            (if 2 \<le> length rows then Some cumulative_times else None)) \<and>
         (extract_lap_times pg ''interval_times'' =
            (if 3 \<le> length rows then Some interval_times else None)) \<and>
         dom (extract_lap_times pg) \<subseteq> {''distances'', ''cumulative_times'', ''interval_times''} \<and>
         (length rows \<le> 1 \<longrightarrow> extract_lap_times pg = Map.empty)"
proof -
  consider "length rows = 0" | "length rows = 1" | "length rows = 2" | "3 \<le> length rows"
    by linarith
  then show ?thesis
  proof cases
    case 1
    then have "lap_block pg = (Map.empty, None)"
      using assms(1,2) by (simp add: lap_block_def lap_rows_def)
    with 1 show ?thesis by (simp add: extract_lap_times_def)
  next
    case 2
    then have "lap_block pg = (Map.empty, None)"
      using assms(1,2,3) by (simp add: lap_block_def lap_rows_def)
    with 2 show ?thesis by (simp add: extract_lap_times_def)
  next
    case 3
    then have "lap_block pg =
        ([''distances'' \<mapsto> distances, ''cumulative_times'' \<mapsto> cumulative_times], None)"
      using assms(1-4) by (simp add: lap_block_def lap_rows_def)
    with 3 show ?thesis by (simp add: extract_lap_times_def)
  next
    case 4
    then have "lap_block pg =
        ([''distances'' \<mapsto> distances, ''cumulative_times'' \<mapsto> cumulative_times,
          ''interval_times'' \<mapsto> interval_times], None)"
      using assms by (simp add: lap_block_def lap_rows_def)
    with 4 show ?thesis by (simp add: extract_lap_times_def)
  qed
qed

theorem lap_times_by_row_count_witness:
  "extract_lap_times (lap_page [lap_tr [asc ''200m'', asc ''400m''] [],
       lap_tr [] [asc ''12.3'', asc ''23.9''], lap_tr [] [asc ''12.3'', asc ''11.6''], lap_tr [] []])
     ''distances'' = Some [asc ''200m'', asc ''400m''] \<and>
   extract_lap_times (lap_page [lap_tr [asc ''200m'', asc ''400m''] [],
       lap_tr [] [asc ''12.3'', asc ''23.9''], lap_tr [] [asc ''12.3'', asc ''11.6''], lap_tr [] []])
     ''cumulative_times'' = Some [asc ''12.3'', asc ''23.9''] \<and>
   extract_lap_times (lap_page [lap_tr [asc ''200m'', asc ''400m''] [],
       lap_tr [] [asc ''12.3'', asc ''23.9''], lap_tr [] [asc ''12.3'', asc ''11.6''], lap_tr [] []])
     ''interval_times'' = Some [asc ''12.3'', asc ''11.6''] \<and>
   extract_lap_times (lap_page [lap_tr [asc ''200m'', asc ''400m''] []]) = Map.empty \<and>
   extract_lap_times (lap_page []) = Map.empty"
proof -
  define rows3 where "rows3 = [lap_tr [asc ''200m'', asc ''400m''] [],
       lap_tr [] [asc ''12.3'', asc ''23.9''], lap_tr [] [asc ''12.3'', asc ''11.6''], lap_tr [] []]"
  define row0 where "row0 = lap_tr [asc ''200m'', asc ''400m''] []"
  have q: "page_query_selector (lap_page rows) ''table.Race_HaronTime'' =
             Inr (Some (node [(''tbody tr'', rows)]))"
          "query_selector_all (node [(''tbody tr'', rows)]) ''tbody tr'' = Inr rows" for rows
    by (simp_all add: lap_page_def static_page_def node_def lookup_def first_of_def)
  have a: "1 \<le> length rows3 \<longrightarrow> row_texts (rows3 ! 0) ''th'' = Inr [asc ''200m'', asc ''400m'']"
          "2 \<le> length rows3 \<longrightarrow> row_texts (rows3 ! 1) ''td'' = Inr [asc ''12.3'', asc ''23.9'']"
          "3 \<le> length rows3 \<longrightarrow> row_texts (rows3 ! 2) ''td'' = Inr [asc ''12.3'', asc ''11.6'']"
    by (simp_all add: rows3_def table_run)
  have b: "1 \<le> length [row0] \<longrightarrow> row_texts ([row0] ! 0) ''th'' = Inr [asc ''200m'', asc ''400m'']"
          "2 \<le> length [row0] \<longrightarrow> row_texts ([row0] ! 1) ''td'' = Inr []"
          "3 \<le> length [row0] \<longrightarrow> row_texts ([row0] ! 2) ''td'' = Inr []"
    by (simp_all add: row0_def table_run)
  have c: "1 \<le> length ([]::element list) \<longrightarrow> row_texts ([] ! 0) ''th'' = Inr []"
          "2 \<le> length ([]::element list) \<longrightarrow> row_texts ([] ! 1) ''td'' = Inr []"
          "3 \<le> length ([]::element list) \<longrightarrow> row_texts ([] ! 2) ''td'' = Inr []"
    by simp_all
  note A = lap_times_by_row_count [OF q a]
  note B = lap_times_by_row_count [OF q b]
  note C = lap_times_by_row_count [OF q c]
  have 1: "extract_lap_times (lap_page rows3) ''distances'' = Some [asc ''200m'', asc ''400m'']"
    "extract_lap_times (lap_page rows3) ''cumulative_times'' = Some [asc ''12.3'', asc ''23.9'']"
    "extract_lap_times (lap_page rows3) ''interval_times'' = Some [asc ''12.3'', asc ''11.6'']"
    using A by (simp_all add: rows3_def)
  have 2: "extract_lap_times (lap_page [row0]) = Map.empty"
    using B by simp
  have 3: "extract_lap_times (lap_page []) = Map.empty"
    using C by simp
  from 1 2 3 show ?thesis
    unfolding rows3_def row0_def by simp
qed

text \<open>
  A lap table with one row, whose header cells can be read: nothing is raised and the
  key \<open>distances\<close> is absent.
\<close>

theorem lap_times_one_row_counterexample:
  "row_texts ([lap_tr [asc ''200m'', asc ''400m''] []] ! 0) ''th'' = Inr [asc ''200m'', asc ''400m''] \<and>
   snd (lap_block (lap_page [lap_tr [asc ''200m'', asc ''400m''] []])) = None \<and>
   extract_lap_times (lap_page [lap_tr [asc ''200m'', asc ''400m''] []]) ''distances'' = None"
  by (simp add: table_run lap_block_def lap_rows_def extract_lap_times_def)

section \<open>A page without a results table\<close>

lemmas page_run =
  info_page_def static_page_def failing_close_def accepting_fs_def node_def leaf_def broken_def
  lookup_def first_of_def

lemma scrape_race_data_ok:
  "session_ok pg \<Longrightarrow> scrape_race_data P pg url = scrape_body P pg url"
  by (simp add: session_ok_def scrape_race_data_def finally_do_def)

text \<open>
  C9, as the code has it. When the wait for the table selector of the layout and the
  wait for the looser selector both fail, \<open>extract_horses_data\<close> returns the empty
  list. When, besides, the browser session starts, navigates and shuts down without an
  exception, \<open>scrape_race_data\<close> returns the record assembled from the URL and
  the outputs of the other extractors, with no horses, and \<open>main\<close> writes that
  record to the file named after the race id whenever the file system accepts the
  write.
\<close>

theorem results_table_absent:
  assumes "wait_for_selector pg
           (if detect_race_type url = ''nar'' then ''table.RaceTable01.ResultMain''
            else ''table.RaceTable01.RaceCommon_Table'') = Inl e1"
    and "wait_for_selector pg
           (if detect_race_type url = ''nar'' then ''table.RaceTable01''
            else ''table.RaceCommon_Table'') = Inl e2"
  shows "extract_horses_data pg (detect_race_type url) = Inr [] \<and>
         (session_ok pg \<longrightarrow>
            scrape_race_data P pg url =
              Inr \<lparr>race_url = url, race_id = extract_race_id P url,
                   race_type = detect_race_type url,
                   race_info = extract_race_info P pg (detect_race_type url),
                   horses = [],
                   corner_passing_order = extract_corner_data pg,
                   lap_times = extract_lap_times pg\<rparr> \<and>
            (\<forall>write_file script.
                write_file (asc ''output/race_data_'' @ extract_race_id P url @ asc ''.json'')
                  \<lparr>race_url = url, race_id = extract_race_id P url,
                   race_type = detect_race_type url,
                   race_info = extract_race_info P pg (detect_race_type url),
                   horses = [],
                   corner_passing_order = extract_corner_data pg,
                   lap_times = extract_lap_times pg\<rparr> = Inr () \<longrightarrow>
                main P pg write_file [script, url] =
                  Written (asc ''output/race_data_'' @ extract_race_id P url @ asc ''.json'')
                    \<lparr>race_url = url, race_id = extract_race_id P url,
                     race_type = detect_race_type url,
                     race_info = extract_race_info P pg (detect_race_type url),
                     horses = [],
                     corner_passing_order = extract_corner_data pg,
                     lap_times = extract_lap_times pg\<rparr>))"
proof -
  have h: "extract_horses_data pg (detect_race_type url) = Inr []"
    using assms by (simp add: extract_horses_data_def split: if_splits)
  define r where "r = \<lparr>race_url = url, race_id = extract_race_id P url,
                    race_type = detect_race_type url,
                    race_info = extract_race_info P pg (detect_race_type url),
                    horses = [],
                    corner_passing_order = extract_corner_data pg,
                    lap_times = extract_lap_times pg\<rparr>"
  have s: "scrape_race_data P pg url = Inr r" if "session_ok pg"
    using that by (simp add: scrape_race_data_ok scrape_body_def session_ok_def h r_def)
  have m: "main P pg write_file [script, url] =
             Written (asc ''output/race_data_'' @ extract_race_id P url @ asc ''.json'') r"
    if "session_ok pg"
      and "write_file (asc ''output/race_data_'' @ extract_race_id P url @ asc ''.json'') r = Inr ()"
    for write_file script
    using that(2) by (simp add: main_def s [OF that(1)] Let_def) (simp add: r_def)
  from h s m show ?thesis
    unfolding r_def by blast
qed


theorem results_table_absent_witness:
  "extract_horses_data (info_page [[33437] @ asc ''2000m'', [33391]] [asc ''G1''] (asc ''Kinen''))
     (detect_race_type (asc ''https://race.netkeiba.com/race/result.html?race_id=7'')) = Inr [] \<and>
   scrape_race_data ascii_platform
     (info_page [[33437] @ asc ''2000m'', [33391]] [asc ''G1''] (asc ''Kinen''))
     (asc ''https://race.netkeiba.com/race/result.html?race_id=7'') =
     Inr \<lparr>race_url = asc ''https://race.netkeiba.com/race/result.html?race_id=7'',
          race_id = asc ''7'', race_type = ''jra'',
          race_info = extract_race_info ascii_platform
            (info_page [[33437] @ asc ''2000m'', [33391]] [asc ''G1''] (asc ''Kinen'')) ''jra'',
          horses = [],
          corner_passing_order =
            extract_corner_data (info_page [[33437] @ asc ''2000m'', [33391]] [asc ''G1''] (asc ''Kinen'')),
          lap_times =
            extract_lap_times (info_page [[33437] @ asc ''2000m'', [33391]] [asc ''G1''] (asc ''Kinen''))\<rparr> \<and>
   main ascii_platform (info_page [[33437] @ asc ''2000m'', [33391]] [asc ''G1''] (asc ''Kinen''))
       accepting_fs
       [asc ''scraper.py'', asc ''https://race.netkeiba.com/race/result.html?race_id=7''] =
     Written (asc ''output/race_data_7.json'')
       \<lparr>race_url = asc ''https://race.netkeiba.com/race/result.html?race_id=7'',
        race_id = asc ''7'', race_type = ''jra'',
        race_info = extract_race_info ascii_platform
          (info_page [[33437] @ asc ''2000m'', [33391]] [asc ''G1''] (asc ''Kinen'')) ''jra'',
        horses = [],
        corner_passing_order =
          extract_corner_data (info_page [[33437] @ asc ''2000m'', [33391]] [asc ''G1''] (asc ''Kinen'')),
        lap_times =
          extract_lap_times (info_page [[33437] @ asc ''2000m'', [33391]] [asc ''G1''] (asc ''Kinen''))\<rparr> \<and>
   extract_race_info ascii_platform
     (info_page [[33437] @ asc ''2000m'', [33391]] [asc ''G1''] (asc ''Kinen'')) ''jra'' ''race_name'' =
     Some (asc ''Kinen'') \<and>
   extract_race_info ascii_platform
     (info_page [[33437] @ asc ''2000m'', [33391]] [asc ''G1''] (asc ''Kinen'')) ''jra'' ''track_condition'' =
     Some [33391]"
proof -
  define pg where "pg = info_page [[33437] @ asc ''2000m'', [33391]] [asc ''G1''] (asc ''Kinen'')"
  define url where "url = asc ''https://race.netkeiba.com/race/result.html?race_id=7''"
  have t: "detect_race_type url = ''jra''"
    unfolding url_def by code_simp
  have i: "extract_race_id ascii_platform url = asc ''7''"
    unfolding url_def by code_simp
  have w1: "wait_for_selector pg
           (if detect_race_type url = ''nar'' then ''table.RaceTable01.ResultMain''
            else ''table.RaceTable01.RaceCommon_Table'') = Inl PlaywrightError"
    by (simp add: pg_def page_run)
  have w2: "wait_for_selector pg
           (if detect_race_type url = ''nar'' then ''table.RaceTable01''
            else ''table.RaceCommon_Table'') = Inl PlaywrightError"
    by (simp add: pg_def page_run)
  have ok: "session_ok pg"
    by (simp add: session_ok_def pg_def page_run)
  have fs: "accepting_fs f r = Inr ()" for f r
    by (simp add: accepting_fs_def)
  note T = results_table_absent [OF w1 w2, of ascii_platform]
  have 1: "extract_horses_data pg (detect_race_type url) = Inr []"
    using T by (rule conjunct1)
  note S = T [THEN conjunct2, rule_format, OF ok]
  have 2: "scrape_race_data ascii_platform pg url =
     Inr \<lparr>race_url = url, race_id = asc ''7'', race_type = ''jra'',
          race_info = extract_race_info ascii_platform pg ''jra'', horses = [],
          corner_passing_order = extract_corner_data pg, lap_times = extract_lap_times pg\<rparr>"
    using S [THEN conjunct1] by (simp only: t i)
  have 3: "main ascii_platform pg accepting_fs [asc ''scraper.py'', url] =
     Written (asc ''output/race_data_7.json'')
       \<lparr>race_url = url, race_id = asc ''7'', race_type = ''jra'',
        race_info = extract_race_info ascii_platform pg ''jra'', horses = [],
        corner_passing_order = extract_corner_data pg, lap_times = extract_lap_times pg\<rparr>"
    using S [THEN conjunct2, rule_format, of accepting_fs "asc ''scraper.py''", OF fs]
    by (simp add: t i asc_def)
  have 4: "extract_race_info ascii_platform pg ''jra'' ''race_name'' = Some (asc ''Kinen'')"
    unfolding extract_race_info_def race_info_block_def race_info_upto_number_def
      race_info_upto_class_def
    by (simp add: then_do_key step_page_title_other step_race_date_other step_race_number_other
        step_race_data02_other scan_race_data01_other pg_def info_run
        split: sum.splits)
  have 5: "extract_race_info ascii_platform pg ''jra'' ''track_condition'' = Some [33391]"
    by (simp add: extract_race_info_data01_key pg_def info_run)
  from 1 2 3 4 5 show ?thesis
    unfolding pg_def url_def by simp
qed

text \<open>
  A page without a results table in a session whose \<open>browser.close()\<close> raises: the
  exception of the \<open>finally\<close> clause leaves \<open>scrape_race_data\<close>, and the run ends
  with exit code 1 and no record.
\<close>

theorem browser_close_counterexample:
  "wait_for_selector (failing_close (static_page [] [])) ''table.RaceTable01.RaceCommon_Table'' =
     Inl PlaywrightError \<and>
   wait_for_selector (failing_close (static_page [] [])) ''table.RaceCommon_Table'' =
     Inl PlaywrightError \<and>
   detect_race_type (asc ''https://race.netkeiba.com/race/result.html?race_id=7'') = ''jra'' \<and>
   extract_horses_data (failing_close (static_page [] [])) ''jra'' = Inr [] \<and>
   browser_close (failing_close (static_page [] [])) = Inl PlaywrightError \<and>
   scrape_race_data ascii_platform (failing_close (static_page [] []))
     (asc ''https://race.netkeiba.com/race/result.html?race_id=7'') = Inl PlaywrightError \<and>
   main ascii_platform (failing_close (static_page [] [])) accepting_fs
     [asc ''scraper.py'', asc ''https://race.netkeiba.com/race/result.html?race_id=7''] = Exit1"
proof -
  have t: "detect_race_type (asc ''https://race.netkeiba.com/race/result.html?race_id=7'') = ''jra''"
    by code_simp
  have s: "scrape_race_data ascii_platform (failing_close (static_page [] []))
     (asc ''https://race.netkeiba.com/race/result.html?race_id=7'') = Inl PlaywrightError"
    by (simp add: scrape_race_data_def finally_do_def page_run)
  have m: "main ascii_platform (failing_close (static_page [] [])) accepting_fs
     [asc ''scraper.py'', asc ''https://race.netkeiba.com/race/result.html?race_id=7''] = Exit1"
    by (simp add: main_def s)
  have h: "extract_horses_data (failing_close (static_page [] [])) ''jra'' = Inr []"
    by (simp add: extract_horses_data_def page_run)
  from t s m h show ?thesis
    by (simp add: page_run)
qed

end
